theory Spec2Isabelle
  imports Complex_Main "HOL-Library.Word" "HOL-Library.Sublist"
begin

section \<open>Strings and values of the host language\<close>

text \<open>
  The library under verification is \<^verbatim>\<open>src/lib/security/sanitize.ts\<close>. Its functions are
  typed \<^verbatim>\<open>string\<close> or \<^verbatim>\<open>any\<close> and are called on the result of \<^verbatim>\<open>request.json()\<close>, so the
  inputs are JSON values, plus \<^verbatim>\<open>undefined\<close> (which the tests pass explicitly).

  A JavaScript string is a sequence of 16-bit code units: \<^verbatim>\<open>length\<close>, \<^verbatim>\<open>trim\<close>, \<^verbatim>\<open>replace\<close>
  and the regular expressions of the module (none has the \<^verbatim>\<open>u\<close> flag) all work on code
  units. A string is therefore a list of 16-bit words; \<open>str\<close> embeds an ASCII literal.
\<close>

type_synonym char16 = "16 word"
type_synonym jsstring = "char16 list"

definition str :: "string \<Rightarrow> jsstring" where
  "str cs = map of_char cs"

abbreviation NUL :: char16 where "NUL \<equiv> 0"
abbreviation QUOT :: char16 where "QUOT \<equiv> 34"
abbreviation AMP :: char16 where "AMP \<equiv> 38"
abbreviation APOS :: char16 where "APOS \<equiv> 39"
abbreviation SLASH :: char16 where "SLASH \<equiv> 47"
abbreviation SEMI :: char16 where "SEMI \<equiv> 59"
abbreviation LT :: char16 where "LT \<equiv> 60"
abbreviation EQ :: char16 where "EQ \<equiv> 61"
abbreviation GT :: char16 where "GT \<equiv> 62"

text \<open>
  Numbers are only ever tested for truthiness by this module, so a double is kept as
  its real value, with the three non-finite values apart.
\<close>

datatype jsnum = NaN | PosInfinity | NegInfinity | Finite real

text \<open>
  An object is the list of its own enumerable string-keyed properties in the order
  \<^verbatim>\<open>Object.entries\<close> lists them. Objects that are not plain data (dates, functions,
  class instances) cannot come out of \<^verbatim>\<open>request.json()\<close> and are not modelled.
\<close>

datatype jsval =
    JUndefined
  | JNull
  | JBool bool
  | JNum jsnum
  | JStr jsstring
  | JArr "jsval list"
  | JObj "(jsstring \<times> jsval) list"

text \<open>\<^verbatim>\<open>!v\<close> is \<open>\<not> truthy v\<close>.\<close>

fun truthy :: "jsval \<Rightarrow> bool" where
  "truthy JUndefined = False"
| "truthy JNull = False"
| "truthy (JBool b) = b"
| "truthy (JNum n) = (n \<noteq> NaN \<and> n \<noteq> Finite 0)"
| "truthy (JStr s) = (s \<noteq> [])"
| "truthy (JArr xs) = True"
| "truthy (JObj kvs) = True"

datatype jstype = TUndefined | TObject | TBoolean | TNumber | TString

fun typeof :: "jsval \<Rightarrow> jstype" where
  "typeof JUndefined = TUndefined"
| "typeof JNull = TObject"
| "typeof (JBool b) = TBoolean"
| "typeof (JNum n) = TNumber"
| "typeof (JStr s) = TString"
| "typeof (JArr xs) = TObject"
| "typeof (JObj kvs) = TObject"

fun isArray :: "jsval \<Rightarrow> bool" where
  "isArray (JArr xs) = True"
| "isArray v = False"

text \<open>
  White space as \<^verbatim>\<open>String.prototype.trim\<close> and the class \<^verbatim>\<open>\s\<close> read it: the code points
  of WhiteSpace and LineTerminator of the language standard.
\<close>

definition is_space :: "char16 \<Rightarrow> bool" where
  "is_space c =
     (c = 0x09 \<or> c = 0x0A \<or> c = 0x0B \<or> c = 0x0C \<or> c = 0x0D \<or> c = 0x20 \<or> c = 0xA0 \<or>
      c = 0x1680 \<or> (0x2000 \<le> c \<and> c \<le> 0x200A) \<or> c = 0x2028 \<or> c = 0x2029 \<or>
      c = 0x202F \<or> c = 0x205F \<or> c = 0x3000 \<or> c = 0xFEFF)"

definition trim :: "jsstring \<Rightarrow> jsstring" where
  "trim s = rev (dropWhile is_space (rev (dropWhile is_space s)))"

section \<open>The text sanitizer\<close>

text \<open>
  \<^verbatim>\<open>text.replace(/<[^>]*>/g, '')\<close> removes every match, found from left to right. A match
  starts at a \<open><\<close>; the class \<^verbatim>\<open>[^>]*\<close> cannot cross a \<open>>\<close>, so the match ends at the first
  \<open>>\<close> after its start, and there is one exactly when some \<open>>\<close> follows. The search resumes
  behind the match. A \<open><\<close> that no \<open>>\<close> follows stays.
\<close>

function strip_tags :: "jsstring \<Rightarrow> jsstring" where
  "strip_tags [] = []"
| "strip_tags (c # cs) =
     (if c = LT \<and> GT \<in> set cs
      then strip_tags (tl (dropWhile (\<lambda>x. x \<noteq> GT) cs))
      else c # strip_tags cs)"
  by pat_completeness auto
termination
proof (relation "measure length")
  show "wf (measure length)" by simp
next
  fix c :: char16 and cs :: jsstring
  have "length (dropWhile (\<lambda>x. x \<noteq> GT) cs) \<le> length cs"
    by (rule length_dropWhile_le)
  then show "(tl (dropWhile (\<lambda>x. x \<noteq> GT) cs), c # cs) \<in> measure length"
    by simp
next
  fix c :: char16 and cs :: jsstring
  show "(cs, c # cs) \<in> measure length" by simp
qed

text \<open>
  Modelled from the spec: \<^verbatim>\<open>validator.escape\<close>, a function of the package \<^verbatim>\<open>validator\<close>,
  which is a dependency of the repository and not part of its sources. The spec has it
  "escape the remaining special characters \<^verbatim>\<open>& < > " ' /\<close> into their textual entity
  forms"; the entities are the ones the package writes, and the repository's test expects
  \<^verbatim>\<open>&amp;\<close> for \<^verbatim>\<open>&\<close>.
\<close>

definition escape_char :: "char16 \<Rightarrow> jsstring" where
  "escape_char c =
     (if c = AMP then str ''&amp;''
      else if c = QUOT then str ''&quot;''
      else if c = APOS then str ''&#x27;''
      else if c = LT then str ''&lt;''
      else if c = GT then str ''&gt;''
      else if c = SLASH then str ''&#x2F;''
      else [c])"

definition escape :: "jsstring \<Rightarrow> jsstring" where
  "escape s = concat (map escape_char s)"

text \<open>\<^verbatim>\<open>sanitized.replace(/\0/g, '')\<close>\<close>

definition remove_nul :: "jsstring \<Rightarrow> jsstring" where
  "remove_nul s = filter (\<lambda>c. c \<noteq> NUL) s"

text \<open>
  \<^verbatim>\<open>sanitizeText\<close>. The guard \<^verbatim>\<open>!text || typeof text !== 'string'\<close> sends every value that is
  not a string, and the empty string, to \<^verbatim>\<open>''\<close>.
\<close>

definition sanitizeText :: "jsval \<Rightarrow> jsstring" where
  "sanitizeText text =
     (if \<not> truthy text \<or> typeof text \<noteq> TString then []
      else case text of
        JStr s \<Rightarrow>
          let sanitized = strip_tags s;
              sanitized = escape sanitized;
              sanitized = remove_nul sanitized
          in trim sanitized
      | _ \<Rightarrow> [])"


section \<open>The HTML sanitizer\<close>

text \<open>
  \<^verbatim>\<open>sanitizeHTML\<close> hands a non-empty string to \<^verbatim>\<open>DOMPurify.sanitize\<close> with a fixed
  configuration. DOMPurify is a dependency outside the repository: the function is the
  parameter \<open>purify\<close>.
\<close>

record purify_config =
  ALLOWED_TAGS :: "jsstring list"
  ALLOWED_ATTR :: "jsstring list"
  ALLOW_DATA_ATTR :: bool

definition config :: purify_config where
  "config =
     \<lparr>ALLOWED_TAGS = map str
        [''p'', ''br'', ''strong'', ''em'', ''u'', ''h1'', ''h2'', ''h3'', ''h4'', ''h5'', ''h6'',
         ''ul'', ''ol'', ''li'', ''a'', ''blockquote'', ''code'', ''pre''],
      ALLOWED_ATTR = map str [''href'', ''target'', ''rel''],
      ALLOW_DATA_ATTR = False\<rparr>"

definition sanitizeHTML :: "(jsstring \<Rightarrow> purify_config \<Rightarrow> jsstring) \<Rightarrow> jsval \<Rightarrow> jsstring" where
  "sanitizeHTML purify html =
     (if \<not> truthy html \<or> typeof html \<noteq> TString then []
      else case html of
        JStr s \<Rightarrow> purify s config
      | _ \<Rightarrow> [])"

section \<open>The URL sanitizer\<close>

text \<open>
  \<^verbatim>\<open>String.prototype.toLowerCase\<close> (the Unicode lower-casing of the host) and
  \<^verbatim>\<open>validator.isURL\<close> (of the package \<^verbatim>\<open>validator\<close>) are parameters. The loop over
  \<^verbatim>\<open>dangerousProtocols\<close> returns \<^verbatim>\<open>''\<close> at the first protocol the lower-cased string starts
  with.
\<close>

definition dangerousProtocols :: "jsstring list" where
  "dangerousProtocols = map str [''javascript:'', ''data:'', ''vbscript:'', ''file:'']"

record isURL_options =
  protocols :: "jsstring list"
  require_protocol :: bool

definition sanitizeURL ::
  "(jsstring \<Rightarrow> jsstring) \<Rightarrow> (jsstring \<Rightarrow> isURL_options \<Rightarrow> bool) \<Rightarrow> jsval \<Rightarrow> jsstring" where
  "sanitizeURL toLowerCase isURL url =
     (if \<not> truthy url \<or> typeof url \<noteq> TString then []
      else case url of
        JStr s \<Rightarrow>
          let trimmed = trim s;
              lowerUrl = toLowerCase trimmed
          in if list_ex (\<lambda>protocol. prefix protocol lowerUrl) dangerousProtocols then []
             else if \<not> isURL trimmed \<lparr>protocols = map str [''http'', ''https''],
                                        require_protocol = False\<rparr> then []
             else trimmed
      | _ \<Rightarrow> [])"

text \<open>
  The ASCII part of \<^verbatim>\<open>toLowerCase\<close>, which agrees with it on strings of ASCII characters;
  it instantiates the parameter in the examples.
\<close>

definition ascii_lower :: "jsstring \<Rightarrow> jsstring" where
  "ascii_lower s = map (\<lambda>c. if 65 \<le> c \<and> c \<le> 90 then c + 32 else c) s"

section \<open>The object sanitizer\<close>

text \<open>
  \<^verbatim>\<open>sanitized[key] = v\<close> on the object \<^verbatim>\<open>sanitized\<close>, which starts as \<^verbatim>\<open>{}\<close>: it replaces the
  value of an own property \<^verbatim>\<open>key\<close> or appends a new one. The one key that behaves
  differently is \<^verbatim>\<open>__proto__\<close>: the assignment finds the accessor that \<^verbatim>\<open>Object.prototype\<close>
  defines and calls its setter, so no own property is created (the setter changes the
  prototype when the value is an object or null, which this model does not record).
\<close>

fun assign :: "(jsstring \<times> jsval) list \<Rightarrow> jsstring \<Rightarrow> jsval \<Rightarrow> (jsstring \<times> jsval) list" where
  "assign [] k v = [(k, v)]"
| "assign ((k', v') # ps) k v = (if k' = k then (k, v) # ps else (k', v') # assign ps k v)"

definition set_prop ::
  "(jsstring \<times> jsval) list \<Rightarrow> jsstring \<Rightarrow> jsval \<Rightarrow> (jsstring \<times> jsval) list" where
  "set_prop sanitized key v = (if key = str ''__proto__'' then sanitized else assign sanitized key v)"

text \<open>
  \<^verbatim>\<open>sanitizeObject\<close>. The guard \<^verbatim>\<open>!obj || typeof obj !== 'object'\<close> returns every value that is
  neither an array nor a non-null object as it is; these are the values of the last
  five equations. An array is mapped; for an object the loop over \<^verbatim>\<open>Object.entries(obj)\<close> fills
  \<^verbatim>\<open>sanitized\<close>.
\<close>

function sanitizeObject ::
  "(jsstring \<Rightarrow> purify_config \<Rightarrow> jsstring) \<Rightarrow> jsval \<Rightarrow> jsstring list \<Rightarrow> jsval" where
  "sanitizeObject purify (JArr items) htmlFields =
     JArr (map (\<lambda>item. sanitizeObject purify item htmlFields) items)"
| "sanitizeObject purify (JObj entries) htmlFields =
     JObj (fold
       (\<lambda>(key, value) sanitized.
          if value = JNull \<or> value = JUndefined then set_prop sanitized key value
          else if typeof value = TString then
            (if key \<in> set htmlFields
             then set_prop sanitized key (JStr (sanitizeHTML purify value))
             else set_prop sanitized key (JStr (sanitizeText value)))
          else if typeof value = TObject
            then set_prop sanitized key (sanitizeObject purify value htmlFields)
          else set_prop sanitized key value)
       entries [])"
| "sanitizeObject purify JUndefined htmlFields = JUndefined"
| "sanitizeObject purify JNull htmlFields = JNull"
| "sanitizeObject purify (JBool b) htmlFields = JBool b"
| "sanitizeObject purify (JNum n) htmlFields = JNum n"
| "sanitizeObject purify (JStr s) htmlFields = JStr s"
  by pat_completeness auto
termination
proof (relation "measure (\<lambda>(purify, obj, htmlFields). size obj)")
  show "wf (measure (\<lambda>(purify, obj, htmlFields). size obj))" by simp
next
  fix purify :: "jsstring \<Rightarrow> purify_config \<Rightarrow> jsstring"
    and items :: "jsval list" and htmlFields :: "jsstring list" and item :: jsval
  assume "item \<in> set items"
  then have "size item < Suc (size_list size items)"
    by (induction items) auto
  then show "((purify, item, htmlFields), (purify, JArr items, htmlFields))
      \<in> measure (\<lambda>(purify, obj, htmlFields). size obj)"
    by simp
next
  fix purify :: "jsstring \<Rightarrow> purify_config \<Rightarrow> jsstring"
    and entries :: "(jsstring \<times> jsval) list" and htmlFields :: "jsstring list"
    and x :: "jsstring \<times> jsval" and key :: jsstring and v :: jsval
  assume "x \<in> set entries" and "(key, v) = x"
  then have "(key, v) \<in> set entries" by simp
  then have "size v < Suc (size_list (size_prod (\<lambda>_. 0) size) entries)"
    by (induction entries) auto
  then show "((purify, v, htmlFields), (purify, JObj entries, htmlFields))
      \<in> measure (\<lambda>(purify, obj, htmlFields). size obj)"
    by simp
qed

section \<open>The schema validator\<close>

text \<open>
  \<^verbatim>\<open>validateCareerData(data: any)\<close> reads \<^verbatim>\<open>data.jobTitle\<close> first. Reading a property of
  \<^verbatim>\<open>null\<close> or \<^verbatim>\<open>undefined\<close> throws a \<^verbatim>\<open>TypeError\<close>; on every other value the read succeeds.
  \<open>field\<close> is the read on such a value, for the five names the validator reads, none of
  which a string, a number, a boolean or an array defines: the own property of an object,
  and \<^verbatim>\<open>undefined\<close> otherwise.
\<close>

datatype js_error = TypeError | RangeError

record validation =
  isValid :: bool
  error :: "jsstring option"

fun field :: "jsval \<Rightarrow> string \<Rightarrow> jsval" where
  "field (JObj kvs) name = (case map_of kvs (str name) of Some v \<Rightarrow> v | None \<Rightarrow> JUndefined)"
| "field v name = JUndefined"

text \<open>\<^verbatim>\<open>v.length\<close> of a string: the number of its code units.\<close>

fun strlen :: "jsval \<Rightarrow> nat" where
  "strlen (JStr s) = length s"
| "strlen v = 0"

definition invalid :: "string \<Rightarrow> validation" where
  "invalid msg = \<lparr>isValid = False, error = Some (str msg)\<rparr>"

definition validateCareerData :: "jsval \<Rightarrow> js_error + validation" where
  "validateCareerData data =
     (if data = JNull \<or> data = JUndefined then Inl TypeError
      else Inr (
        if \<not> truthy (field data ''jobTitle'') \<or> typeof (field data ''jobTitle'') \<noteq> TString
          then invalid ''Job title is required and must be a string''
        else if \<not> truthy (field data ''description'') \<or> typeof (field data ''description'') \<noteq> TString
          then invalid ''Description is required and must be a string''
        else if \<not> truthy (field data ''location'') \<or> typeof (field data ''location'') \<noteq> TString
          then invalid ''Location is required and must be a string''
        else if \<not> truthy (field data ''workSetup'') \<or> typeof (field data ''workSetup'') \<noteq> TString
          then invalid ''Work setup is required and must be a string''
        else if strlen (field data ''jobTitle'') > 200
          then invalid ''Job title must be less than 200 characters''
        else if strlen (field data ''description'') > 10000
          then invalid ''Description must be less than 10000 characters''
        else if truthy (field data ''questions'') \<and> \<not> isArray (field data ''questions'')
          then invalid ''Questions must be an array''
        else \<lparr>isValid = True, error = None\<rparr>))"

section \<open>The XSS detector\<close>

text \<open>
  The eight patterns are sequences of two kinds of items: one character of a class, and
  any number of characters of a class (\<^verbatim>\<open>*\<close>, and \<^verbatim>\<open>*?\<close>: \<^verbatim>\<open>test\<close> only asks whether some
  match exists, which does not depend on greediness). \<open>match_here\<close> is a match that starts
  at the head of the string; \<open>regex_test\<close> is \<^verbatim>\<open>pattern.test(text)\<close> on a fresh pattern (the
  array of literals is built anew by every call, so \<^verbatim>\<open>lastIndex\<close> is 0): a match starting
  anywhere.
\<close>

datatype item = One "char16 \<Rightarrow> bool" | Many "char16 \<Rightarrow> bool"

type_synonym regex = "item list"

fun match_here :: "regex \<Rightarrow> jsstring \<Rightarrow> bool" where
  "match_here [] s = True"
| "match_here (One p # r) [] = False"
| "match_here (One p # r) (c # cs) = (p c \<and> match_here r cs)"
| "match_here (Many p # r) [] = match_here r []"
| "match_here (Many p # r) (c # cs) = (match_here r (c # cs) \<or> (p c \<and> match_here (Many p # r) cs))"

fun regex_test :: "regex \<Rightarrow> jsstring \<Rightarrow> bool" where
  "regex_test r [] = match_here r []"
| "regex_test r (c # cs) = (match_here r (c # cs) \<or> regex_test r cs)"

text \<open>
  Under the flag \<^verbatim>\<open>i\<close> (without \<^verbatim>\<open>u\<close>) two characters match when their canonical forms
  agree; the canonical form is the upper case, except that a character outside ASCII is
  never mapped into ASCII. Every character of the patterns is ASCII, so against them the
  canonical form is the ASCII upper case. The classes \<^verbatim>\<open>\w\<close>, \<^verbatim>\<open>\s\<close>, \<^verbatim>\<open>[^>]\<close> and \<^verbatim>\<open>.\<close> are
  closed under the canonical form.
\<close>

definition fold_case :: "char16 \<Rightarrow> char16" where
  "fold_case c = (if 97 \<le> c \<and> c \<le> 122 then c - 32 else c)"

definition lit_i :: "string \<Rightarrow> regex" where
  "lit_i cs = map (\<lambda>a. One (\<lambda>c. fold_case c = fold_case (of_char a))) cs"

definition is_word :: "char16 \<Rightarrow> bool" where
  "is_word c = ((48 \<le> c \<and> c \<le> 57) \<or> (65 \<le> c \<and> c \<le> 90) \<or> c = 95 \<or> (97 \<le> c \<and> c \<le> 122))"

definition is_line_terminator :: "char16 \<Rightarrow> bool" where
  "is_line_terminator c = (c = 0x0A \<or> c = 0x0D \<or> c = 0x2028 \<or> c = 0x2029)"

definition xssPatterns :: "regex list" where
  "xssPatterns =
     [lit_i ''<script'' @ [Many (\<lambda>c. c \<noteq> GT), One (\<lambda>c. c = GT),
                           Many (\<lambda>c. \<not> is_line_terminator c)] @ lit_i ''</script>'',
      lit_i ''javascript:'',
      lit_i ''on'' @ [One is_word, Many is_word, Many is_space, One (\<lambda>c. c = EQ)],
      lit_i ''<iframe'',
      lit_i ''eval('',
      lit_i ''expression('',
      lit_i ''<embed'',
      lit_i ''<object'']"

definition detectXSS :: "jsval \<Rightarrow> bool" where
  "detectXSS text =
     (if \<not> truthy text \<or> typeof text \<noteq> TString then False
      else case text of
        JStr s \<Rightarrow> list_ex (\<lambda>pattern. regex_test pattern s) xssPatterns
      | _ \<Rightarrow> False)"

section \<open>The sanitizers with the errors of the runtime\<close>

text \<open>
  The sanitizers above are the values the functions compute. The functions can be
  stopped by an error of the runtime in three ways, which this section writes out:
  a string method (\<^verbatim>\<open>text.replace\<close>, \<^verbatim>\<open>url.trim\<close>) called on a value that is not a string
  throws a \<^verbatim>\<open>TypeError\<close>; the functions of \<^verbatim>\<open>validator\<close> throw a \<^verbatim>\<open>TypeError\<close> when their
  argument is not a string (its \<^verbatim>\<open>assertString\<close>); and a call that the stack has no room
  for throws a \<^verbatim>\<open>RangeError\<close>. DOMPurify is described by the parameter \<open>purify\<close> on strings
  only; a call of it on another value counts as a \<^verbatim>\<open>TypeError\<close>.
\<close>

fun string_receiver :: "jsval \<Rightarrow> js_error + jsstring" where
  "string_receiver (JStr s) = Inr s"
| "string_receiver v = Inl TypeError"

fun assertString :: "jsval \<Rightarrow> js_error + jsstring" where
  "assertString (JStr s) = Inr s"
| "assertString v = Inl TypeError"

definition validator_escape :: "jsval \<Rightarrow> js_error + jsstring" where
  "validator_escape v = (case assertString v of Inl e \<Rightarrow> Inl e | Inr s \<Rightarrow> Inr (escape s))"

definition validator_isURL ::
  "(jsstring \<Rightarrow> isURL_options \<Rightarrow> bool) \<Rightarrow> jsval \<Rightarrow> isURL_options \<Rightarrow> js_error + bool" where
  "validator_isURL isURL v options =
     (case assertString v of Inl e \<Rightarrow> Inl e | Inr s \<Rightarrow> Inr (isURL s options))"

definition DOMPurify_sanitize ::
  "(jsstring \<Rightarrow> purify_config \<Rightarrow> jsstring) \<Rightarrow> jsval \<Rightarrow> purify_config \<Rightarrow> js_error + jsstring" where
  "DOMPurify_sanitize purify v cfg =
     (case v of JStr s \<Rightarrow> Inr (purify s cfg) | _ \<Rightarrow> Inl TypeError)"

definition sanitizeHTML_run ::
  "(jsstring \<Rightarrow> purify_config \<Rightarrow> jsstring) \<Rightarrow> jsval \<Rightarrow> js_error + jsstring" where
  "sanitizeHTML_run purify html =
     (if \<not> truthy html \<or> typeof html \<noteq> TString then Inr []
      else DOMPurify_sanitize purify html config)"

definition sanitizeText_run :: "jsval \<Rightarrow> js_error + jsstring" where
  "sanitizeText_run text =
     (if \<not> truthy text \<or> typeof text \<noteq> TString then Inr []
      else case string_receiver text of
        Inl e \<Rightarrow> Inl e
      | Inr s \<Rightarrow>
          (case validator_escape (JStr (strip_tags s)) of
             Inl e \<Rightarrow> Inl e
           | Inr sanitized \<Rightarrow> Inr (trim (remove_nul sanitized))))"

definition sanitizeURL_run ::
  "(jsstring \<Rightarrow> jsstring) \<Rightarrow> (jsstring \<Rightarrow> isURL_options \<Rightarrow> bool) \<Rightarrow> jsval \<Rightarrow> js_error + jsstring" where
  "sanitizeURL_run toLowerCase isURL url =
     (if \<not> truthy url \<or> typeof url \<noteq> TString then Inr []
      else case string_receiver url of
        Inl e \<Rightarrow> Inl e
      | Inr s \<Rightarrow>
          let trimmed = trim s;
              lowerUrl = toLowerCase trimmed
          in if list_ex (\<lambda>protocol. prefix protocol lowerUrl) dangerousProtocols then Inr []
             else (case validator_isURL isURL (JStr trimmed)
                          \<lparr>protocols = map str [''http'', ''https''], require_protocol = False\<rparr> of
                     Inl e \<Rightarrow> Inl e
                   | Inr ok \<Rightarrow> if \<not> ok then Inr [] else Inr trimmed))"

text \<open>
  \<^verbatim>\<open>Array.prototype.map\<close> and the \<^verbatim>\<open>for\<close> loop with a body that can throw: the first error
  ends them.
\<close>

fun map_run :: "('a \<Rightarrow> js_error + 'b) \<Rightarrow> 'a list \<Rightarrow> js_error + 'b list" where
  "map_run f [] = Inr []"
| "map_run f (x # xs) =
     (case f x of
        Inl e \<Rightarrow> Inl e
      | Inr y \<Rightarrow> (case map_run f xs of Inl e \<Rightarrow> Inl e | Inr ys \<Rightarrow> Inr (y # ys)))"

fun fold_run :: "('a \<Rightarrow> 'b \<Rightarrow> js_error + 'b) \<Rightarrow> 'a list \<Rightarrow> 'b \<Rightarrow> js_error + 'b" where
  "fold_run f [] acc = Inr acc"
| "fold_run f (x # xs) acc = (case f x acc of Inl e \<Rightarrow> Inl e | Inr acc' \<Rightarrow> fold_run f xs acc')"

text \<open>
  \<^verbatim>\<open>sanitizeObject\<close> on a stack with room for \<open>n\<close> nested activations of it: an activation
  that has no room throws, and each recursive call has one activation less to use. The
  recursion itself has no bound on its depth.
\<close>

fun sanitizeObject_run ::
  "(jsstring \<Rightarrow> purify_config \<Rightarrow> jsstring) \<Rightarrow> nat \<Rightarrow> jsval \<Rightarrow> jsstring list \<Rightarrow> js_error + jsval" where
  "sanitizeObject_run purify 0 obj htmlFields = Inl RangeError"
| "sanitizeObject_run purify (Suc n) obj htmlFields =
     (if \<not> truthy obj \<or> typeof obj \<noteq> TObject then Inr obj
      else case obj of
        JArr items \<Rightarrow>
          (case map_run (\<lambda>item. sanitizeObject_run purify n item htmlFields) items of
             Inl e \<Rightarrow> Inl e
           | Inr sanitized \<Rightarrow> Inr (JArr sanitized))
      | JObj entries \<Rightarrow>
          (case fold_run
             (\<lambda>(key, value) sanitized.
                if value = JNull \<or> value = JUndefined then Inr (set_prop sanitized key value)
                else if typeof value = TString then
                  (if key \<in> set htmlFields
                   then (case sanitizeHTML_run purify value of
                           Inl e \<Rightarrow> Inl e
                         | Inr s \<Rightarrow> Inr (set_prop sanitized key (JStr s)))
                   else (case sanitizeText_run value of
                           Inl e \<Rightarrow> Inl e
                         | Inr s \<Rightarrow> Inr (set_prop sanitized key (JStr s))))
                else if typeof value = TObject then
                  (case sanitizeObject_run purify n value htmlFields of
                     Inl e \<Rightarrow> Inl e
                   | Inr v \<Rightarrow> Inr (set_prop sanitized key v))
                else Inr (set_prop sanitized key value))
             entries [] of
             Inl e \<Rightarrow> Inl e
           | Inr sanitized \<Rightarrow> Inr (JObj sanitized))
      | _ \<Rightarrow> Inr obj)"

section \<open>Notions the properties are stated in\<close>

text \<open>A string that \<^verbatim>\<open>trim\<close> leaves alone: it neither starts nor ends with white space.\<close>

definition trimmed :: "jsstring \<Rightarrow> bool" where
  "trimmed s = (s = [] \<or> (\<not> is_space (hd s) \<and> \<not> is_space (last s)))"

text \<open>
  A string with a tag-like piece: some \<open><\<close> has a \<open>>\<close> somewhere behind it. These are the
  strings in which \<^verbatim>\<open>/<[^>]*>/\<close> finds a match.
\<close>

fun tagged :: "jsstring \<Rightarrow> bool" where
  "tagged [] = False"
| "tagged (c # cs) = ((c = LT \<and> GT \<in> set cs) \<or> tagged cs)"

text \<open>
  The values \<^verbatim>\<open>request.json()\<close> can return and on which assignment by key is plain
  property definition: the keys of an object are pairwise distinct, as in every object of
  the language, and none is \<^verbatim>\<open>__proto__\<close>.
\<close>

fun plain :: "jsval \<Rightarrow> bool" where
  "plain (JArr xs) = list_all plain xs"
| "plain (JObj kvs) =
     (distinct (map fst kvs) \<and> str ''__proto__'' \<notin> set (map fst kvs) \<and>
      list_all (\<lambda>(k, v). plain v) kvs)"
| "plain v = True"

text \<open>
  The value the loop of \<^verbatim>\<open>sanitizeObject\<close> assigns to \<^verbatim>\<open>sanitized[key]\<close> for the entry
  \<^verbatim>\<open>[key, value]\<close>.
\<close>

definition assigned ::
  "(jsstring \<Rightarrow> purify_config \<Rightarrow> jsstring) \<Rightarrow> jsstring list \<Rightarrow> jsstring \<Rightarrow> jsval \<Rightarrow> jsval" where
  "assigned purify htmlFields key v =
     (if v = JNull \<or> v = JUndefined then v
      else if typeof v = TString then
        (if key \<in> set htmlFields then JStr (sanitizeHTML purify v) else JStr (sanitizeText v))
      else if typeof v = TObject then sanitizeObject purify v htmlFields
      else v)"

text \<open>
  The number of nested activations of \<^verbatim>\<open>sanitizeObject\<close> that a value causes: one for the
  call itself, and below an array or an object those of the deepest element or value it
  is called on (the elements of an array all, the values of an object when they are
  arrays or objects).
\<close>

fun depth :: "jsval \<Rightarrow> nat" where
  "depth (JArr items) = Suc (foldr max (map depth items) 0)"
| "depth (JObj entries) =
     Suc (foldr max
       (map (\<lambda>(key, v). if v = JNull \<or> v = JUndefined \<or> typeof v \<noteq> TObject then 0 else depth v)
          entries) 0)"
| "depth v = 1"

definition entry_depth :: "jsstring \<times> jsval \<Rightarrow> nat" where
  "entry_depth = (\<lambda>(key, v). if v = JNull \<or> v = JUndefined \<or> typeof v \<noteq> TObject then 0 else depth v)"

text \<open>\<open>nested k\<close> is the empty array inside \<open>k\<close> arrays.\<close>

fun nested :: "nat \<Rightarrow> jsval" where
  "nested 0 = JArr []"
| "nested (Suc k) = JArr [nested k]"

text \<open>
  A position inside a value: the indices and keys that lead to it from the root.
  \<open>at_path v p\<close> is the value at position \<open>p\<close> of \<open>v\<close>, if there is one.
\<close>

datatype step = Index nat | Key jsstring

fun at_path :: "jsval \<Rightarrow> step list \<Rightarrow> jsval option" where
  "at_path v [] = Some v"
| "at_path (JArr xs) (Index i # p) = (if i < length xs then at_path (xs ! i) p else None)"
| "at_path (JObj kvs) (Key k # p) = (case map_of kvs k of Some v \<Rightarrow> at_path v p | None \<Rightarrow> None)"
| "at_path v (s # p) = None"

text \<open>
  The shape of a value: the value with every string replaced by the empty string. Two
  values of one shape have the same keys in the same order, the same array lengths and
  the same scalars, and differ at most in their strings.
\<close>

fun shape :: "jsval \<Rightarrow> jsval" where
  "shape (JStr s) = JStr []"
| "shape (JArr xs) = JArr (map shape xs)"
| "shape (JObj kvs) = JObj (map (\<lambda>(k, v). (k, shape v)) kvs)"
| "shape v = v"

text \<open>
  The strings a pattern matches, said without reference to a matching procedure:
  \<open>denotes r u\<close> when \<open>u\<close> splits into one piece per item of \<open>r\<close>.
\<close>

fun denotes :: "regex \<Rightarrow> jsstring \<Rightarrow> bool" where
  "denotes [] u = (u = [])"
| "denotes (One p # r) u = (\<exists>c w. u = c # w \<and> p c \<and> denotes r w)"
| "denotes (Many p # r) u = (\<exists>v w. u = v @ w \<and> list_all p v \<and> denotes r w)"







text \<open>
  The required fields of a career post in the order the validator checks them, each with
  its message; a field passes when it is a non-empty string.
\<close>

definition required_fields :: "(string \<times> string) list" where
  "required_fields =
     [(''jobTitle'', ''Job title is required and must be a string''),
      (''description'', ''Description is required and must be a string''),
      (''location'', ''Location is required and must be a string''),
      (''workSetup'', ''Work setup is required and must be a string'')]"

definition passes :: "jsval \<Rightarrow> string \<Rightarrow> bool" where
  "passes data name = (case field data name of JStr s \<Rightarrow> s \<noteq> [] | _ \<Rightarrow> False)"

text \<open>The options \<^verbatim>\<open>sanitizeURL\<close> gives to \<^verbatim>\<open>validator.isURL\<close>.\<close>

definition http_https :: isURL_options where
  "http_https = \<lparr>protocols = map str [''http'', ''https''], require_protocol = False\<rparr>"

text \<open>\<open>contains s lit\<close>: the literal occurs in the string (\<^verbatim>\<open>toContain\<close> of the tests).\<close>

definition contains :: "jsstring \<Rightarrow> string \<Rightarrow> bool" where
  "contains s lit = sublist (str lit) s"

section \<open>Properties of the text sanitizer\<close>

lemma strip_tags_id: "LT \<notin> set s \<Longrightarrow> strip_tags s = s"
  by (induction s) auto

lemma escape_char_avoids:
  "LT \<notin> set (escape_char c)" "GT \<notin> set (escape_char c)"
  "QUOT \<notin> set (escape_char c)" "APOS \<notin> set (escape_char c)" "SLASH \<notin> set (escape_char c)"
  by (auto simp: escape_char_def str_def)

lemma escape_avoids:
  "LT \<notin> set (escape s)" "GT \<notin> set (escape s)"
  "QUOT \<notin> set (escape s)" "APOS \<notin> set (escape s)" "SLASH \<notin> set (escape s)"
  using escape_char_avoids by (auto simp: escape_def)

lemma escape_char_nul: "NUL \<in> set (escape_char c) \<longleftrightarrow> c = NUL"
  by (auto simp: escape_char_def str_def)

lemma escape_nul: "NUL \<in> set (escape s) \<longleftrightarrow> NUL \<in> set s"
  by (auto simp: escape_def escape_char_nul)

lemma set_trim: "set (trim s) \<subseteq> set s"
  by (auto simp: trim_def dest!: set_dropWhileD)

lemma remove_nul_set: "set (remove_nul s) = set s - {NUL}"
  by (auto simp: remove_nul_def)

lemma remove_nul_id: "NUL \<notin> set s \<Longrightarrow> remove_nul s = s"
  by (induction s) (auto simp: remove_nul_def)


lemma trim_id: "trimmed s \<Longrightarrow> trim s = s"
proof (cases s)
  case Nil then show ?thesis by (simp add: trim_def)
next
  case (Cons c cs)
  assume "trimmed s"
  with Cons have h: "\<not> is_space c" and l: "\<not> is_space (last s)" by (auto simp: trimmed_def)
  from h Cons have 1: "dropWhile is_space s = s" by simp
  from Cons l have 2: "dropWhile is_space (rev s) = rev s"
    by (cases "rev s") (auto simp: hd_rev[symmetric] simp del: hd_rev)
  show ?thesis by (simp add: trim_def 1 2)
qed

lemma trimmed_trim: "trimmed (trim s)"
proof -
  define u where "u = dropWhile is_space s"
  define w where "w = dropWhile is_space (rev u)"
  have tw: "trim s = rev w" by (simp add: trim_def u_def w_def)
  show ?thesis
  proof (cases "w = []")
    case True then show ?thesis by (simp add: tw trimmed_def)
  next
    case False
    then have hw: "\<not> is_space (hd w)" unfolding w_def by (metis hd_dropWhile)
    from False have "rev u \<noteq> []" by (auto simp: w_def)
    then have une: "u \<noteq> []" by simp
    then have hu: "\<not> is_space (hd u)" unfolding u_def by (metis hd_dropWhile)
    obtain ys where ys: "rev u = ys @ w" unfolding w_def
      by (metis takeWhile_dropWhile_id)
    then have "u = rev w @ rev ys" by (metis rev_append rev_rev_ident)
    with False have "hd (rev w) = hd u" by simp
    with hu hw False show ?thesis by (simp add: tw trimmed_def last_rev)
  qed
qed

lemma escape_char_ne: "escape_char c \<noteq> []"
  by (simp add: escape_char_def str_def)

lemma escape_char_hd: "\<not> is_space c \<Longrightarrow> \<not> is_space (hd (escape_char c))"
  by (simp add: escape_char_def str_def is_space_def)

lemma escape_char_last: "\<not> is_space c \<Longrightarrow> \<not> is_space (last (escape_char c))"
  by (simp add: escape_char_def str_def is_space_def)

lemma escape_Cons: "escape (c # cs) = escape_char c @ escape cs"
  by (simp add: escape_def)

lemma escape_snoc: "escape (cs @ [c]) = escape cs @ escape_char c"
  by (simp add: escape_def)

lemma trimmed_escape: "trimmed s \<Longrightarrow> trimmed (escape s)"
proof (cases "s = []")
  case True then show ?thesis by (simp add: trimmed_def escape_def)
next
  case False
  assume t: "trimmed s"
  from False obtain c cs where c: "s = c # cs" by (cases s) auto
  from False obtain bs b where b: "s = bs @ [b]" by (metis rev_exhaust)
  from t c have "\<not> is_space c" by (simp add: trimmed_def)
  then have 1: "\<not> is_space (hd (escape s))"
    using escape_char_ne[of c] by (simp add: c escape_Cons escape_char_hd)
  from t b have "\<not> is_space b" by (simp add: trimmed_def)
  then have 2: "\<not> is_space (last (escape s))"
    using escape_char_ne[of b] by (simp add: b escape_snoc escape_char_last)
  from 1 2 show ?thesis by (simp add: trimmed_def)
qed

lemma length_escape_char: "1 \<le> length (escape_char c)"
  by (simp add: escape_char_def str_def)

lemma length_escape: "length s \<le> length (escape s)"
proof (induction s)
  case Nil then show ?case by simp
next
  case (Cons c cs)
  with length_escape_char[of c] show ?case by (simp add: escape_Cons)
qed

lemma escape_amp_longer: "AMP \<in> set s \<Longrightarrow> length s < length (escape s)"
proof (induction s)
  case Nil then show ?case by simp
next
  case (Cons c cs)
  show ?case
  proof (cases "c = AMP")
    case True
    then have "length (escape_char c) = 5" by (simp add: escape_char_def str_def)
    with length_escape[of cs] show ?thesis by (simp add: escape_Cons)
  next
    case False
    with Cons have "length cs < length (escape cs)" by simp
    with length_escape_char[of c] show ?thesis by (simp add: escape_Cons)
  qed
qed

lemma escape_id:
  "AMP \<notin> set s \<Longrightarrow> LT \<notin> set s \<Longrightarrow> GT \<notin> set s \<Longrightarrow> QUOT \<notin> set s \<Longrightarrow> APOS \<notin> set s
   \<Longrightarrow> SLASH \<notin> set s \<Longrightarrow> escape s = s"
  by (induction s) (auto simp: escape_Cons escape_char_def escape_def)

lemma sanitizeText_str: "sanitizeText (JStr s) = (if s = [] then [] else trim (remove_nul (escape (strip_tags s))))"
  by (simp add: sanitizeText_def)

lemma sanitizeText_nonstr: "\<forall>s. v \<noteq> JStr s \<Longrightarrow> sanitizeText v = []"
  by (cases v) (auto simp: sanitizeText_def)

lemma sanitizeText_set: "set (sanitizeText v) \<subseteq> set (escape (strip_tags (case v of JStr s \<Rightarrow> s | _ \<Rightarrow> []))) - {NUL}"
proof (cases v)
  case (JStr s)
  have "set (trim (remove_nul (escape (strip_tags s)))) \<subseteq> set (remove_nul (escape (strip_tags s)))"
    by (rule set_trim)
  then show ?thesis by (auto simp: JStr sanitizeText_def remove_nul_set)
qed (simp_all add: sanitizeText_def)

lemma sanitizeText_avoids:
  "LT \<notin> set (sanitizeText v)" "GT \<notin> set (sanitizeText v)" "NUL \<notin> set (sanitizeText v)"
  "QUOT \<notin> set (sanitizeText v)" "APOS \<notin> set (sanitizeText v)" "SLASH \<notin> set (sanitizeText v)"
  using sanitizeText_set[of v] escape_avoids by blast+

lemma trimmed_sanitizeText: "trimmed (sanitizeText v)"
  by (cases v) (auto simp: sanitizeText_def trimmed_trim, auto simp: trimmed_def)

lemma sanitizeText_twice: "sanitizeText (JStr (sanitizeText v)) = escape (sanitizeText v)"
proof -
  let ?t = "sanitizeText v"
  have 1: "strip_tags ?t = ?t" by (rule strip_tags_id) (rule sanitizeText_avoids)
  have 2: "remove_nul (escape ?t) = escape ?t"
    by (rule remove_nul_id) (simp add: escape_nul sanitizeText_avoids)
  have 3: "trim (escape ?t) = escape ?t"
    by (rule trim_id) (rule trimmed_escape, rule trimmed_sanitizeText)
  show ?thesis by (simp add: sanitizeText_str 1 2 3) (simp add: escape_def)
qed

lemma tagged_iff: "tagged s \<longleftrightarrow> (\<exists>a x b. s = a @ LT # x @ GT # b)"
proof (induction s)
  case Nil
  then show ?case by simp
next
  case (Cons c cs)
  show ?case
  proof
    assume "tagged (c # cs)"
    then consider (h) "c = LT" "GT \<in> set cs" | (t) "tagged cs" by auto
    then show "\<exists>a x b. c # cs = a @ LT # x @ GT # b"
    proof cases
      case h
      then obtain x b where "cs = x @ GT # b" by (auto dest: split_list)
      with h have "c # cs = [] @ LT # x @ GT # b" by simp
      then show ?thesis by blast
    next
      case t
      with Cons obtain a x b where "cs = a @ LT # x @ GT # b" by blast
      then have "c # cs = (c # a) @ LT # x @ GT # b" by simp
      then show ?thesis by blast
    qed
  next
    assume "\<exists>a x b. c # cs = a @ LT # x @ GT # b"
    then obtain a x b where e: "c # cs = a @ LT # x @ GT # b" by blast
    show "tagged (c # cs)"
    proof (cases a)
      case Nil
      with e have "c = LT" "GT \<in> set cs" by auto
      then show ?thesis by simp
    next
      case (Cons d a')
      with e have "cs = a' @ LT # x @ GT # b" by simp
      with Cons.IH have "tagged cs" by blast
      then show ?thesis by simp
    qed
  qed
qed

lemma strip_tags_untagged: "\<not> tagged s \<Longrightarrow> strip_tags s = s"
  by (induction s) auto

lemma strip_tags_first_tag:
  "LT \<notin> set a \<Longrightarrow> GT \<notin> set x \<Longrightarrow> strip_tags (a @ LT # x @ GT # r) = a @ strip_tags r"
proof (induction a)
  case Nil
  then have "dropWhile (\<lambda>c. c \<noteq> GT) (x @ GT # r) = GT # r"
    by (induction x) auto
  then show ?case by simp
next
  case (Cons c a)
  then show ?case by simp
qed

lemma set_tl_subset: "set (tl xs) \<subseteq> set xs"
  by (cases xs) auto

lemma set_strip_tags: "set (strip_tags s) \<subseteq> set s"
proof (induction s rule: strip_tags.induct)
  case 1
  then show ?case by simp
next
  case (2 c cs)
  show ?case
  proof (cases "c = LT \<and> GT \<in> set cs")
    case True
    with 2 have "set (strip_tags (c # cs)) \<subseteq> set (tl (dropWhile (\<lambda>x. x \<noteq> GT) cs))" by simp
    also have "\<dots> \<subseteq> set (dropWhile (\<lambda>x. x \<noteq> GT) cs)"
      by (rule set_tl_subset)
    also have "\<dots> \<subseteq> set cs" by (auto dest: set_dropWhileD)
    finally show ?thesis by auto
  next
    case False
    with 2 show ?thesis by auto
  qed
qed

lemma strip_tags_not_tagged: "\<not> tagged (strip_tags s)"
proof (induction s rule: strip_tags.induct)
  case 1
  then show ?case by simp
next
  case (2 c cs)
  show ?case
  proof (cases "c = LT \<and> GT \<in> set cs")
    case True
    with 2 show ?thesis by simp
  next
    case False
    with 2 have "\<not> tagged (strip_tags cs)" by simp
    moreover from False set_strip_tags [of cs] have "\<not> (c = LT \<and> GT \<in> set (strip_tags cs))"
      by auto
    moreover from False have "strip_tags (c # cs) = c # strip_tags cs" by auto
    ultimately show ?thesis by (simp only: tagged.simps) blast
  qed
qed

lemma escape_append: "escape (a @ b) = escape a @ escape b"
  by (simp add: escape_def)

lemma escape_single:
  "escape [AMP] = str ''&amp;''" "escape [LT] = str ''&lt;''" "escape [GT] = str ''&gt;''"
  "escape [QUOT] = str ''&quot;''" "escape [APOS] = str ''&#x27;''" "escape [SLASH] = str ''&#x2F;''"
  by (simp_all add: escape_def escape_char_def)

lemma escape_other:
  "c \<notin> {AMP, LT, GT, QUOT, APOS, SLASH} \<Longrightarrow> escape [c] = [c]"
  by (simp add: escape_def escape_char_def)

lemma remove_nul_append: "remove_nul (a @ b) = remove_nul a @ remove_nul b"
  by (simp add: remove_nul_def)

lemma remove_nul_single: "remove_nul [c] = (if c = NUL then [] else [c])"
  by (simp add: remove_nul_def)

lemma trim_decomposition:
  "\<exists>a b. s = a @ trim s @ b \<and> list_all is_space a \<and> list_all is_space b"
proof -
  define u where "u = dropWhile is_space s"
  have 1: "s = takeWhile is_space s @ u" by (simp add: u_def)
  have "rev (takeWhile is_space (rev u) @ dropWhile is_space (rev u)) =
      rev (dropWhile is_space (rev u)) @ rev (takeWhile is_space (rev u))"
    by (rule rev_append)
  moreover have "rev (takeWhile is_space (rev u) @ dropWhile is_space (rev u)) = u" by simp
  moreover have "rev (dropWhile is_space (rev u)) = trim s" by (simp add: trim_def u_def)
  ultimately have 2: "u = trim s @ rev (takeWhile is_space (rev u))" by simp
  have 3: "list_all is_space (takeWhile is_space s)"
    by (auto simp: list_all_iff dest: set_takeWhileD)
  have 4: "list_all is_space (rev (takeWhile is_space (rev u)))"
    by (auto simp: list_all_iff dest: set_takeWhileD)
  from 1 2 have "s = takeWhile is_space s @ trim s @ rev (takeWhile is_space (rev u))" by simp
  with 3 4 show ?thesis by blast
qed

text \<open>
  Claim C4. For every input, the result of \<^verbatim>\<open>sanitizeText\<close> contains no \<open><\<close>, no \<open>>\<close> (so
  none that is unescaped) and no NUL character, and it neither starts nor ends with
  white space. On a non-empty string the result is made in four steps, in this order.
  First the tag-like pieces are removed: a string without such a piece stays as it is,
  the first piece (from the first \<open><\<close> that has a \<open>>\<close> behind it to the nearest such \<open>>\<close>) is
  cut out and the removal goes on behind it, and no such piece is left. Then each of the
  characters \<^verbatim>\<open>& < > " ' /\<close> is replaced by its entity, character by character, and every
  other character is kept. Then the NUL characters are deleted and all others kept. Then
  the white space at both ends is cut off.
\<close>

theorem sanitizeText_output:
  "LT \<notin> set (sanitizeText v) \<and> GT \<notin> set (sanitizeText v) \<and> NUL \<notin> set (sanitizeText v) \<and>
   trimmed (sanitizeText v) \<and>
   sanitizeText (JStr s) = (if s = [] then [] else trim (remove_nul (escape (strip_tags s)))) \<and>
   (tagged s \<longleftrightarrow> (\<exists>a x b. s = a @ LT # x @ GT # b)) \<and>
   (\<not> tagged s \<longrightarrow> strip_tags s = s) \<and>
   (LT \<notin> set a \<and> GT \<notin> set x \<longrightarrow> strip_tags (a @ LT # x @ GT # r) = a @ strip_tags r) \<and>
   \<not> tagged (strip_tags s) \<and>
   escape (a @ r) = escape a @ escape r \<and>
   escape [AMP] = str ''&amp;'' \<and> escape [LT] = str ''&lt;'' \<and> escape [GT] = str ''&gt;'' \<and>
   escape [QUOT] = str ''&quot;'' \<and> escape [APOS] = str ''&#x27;'' \<and> escape [SLASH] = str ''&#x2F;'' \<and>
   (c \<notin> {AMP, LT, GT, QUOT, APOS, SLASH} \<longrightarrow> escape [c] = [c]) \<and>
   remove_nul (a @ r) = remove_nul a @ remove_nul r \<and>
   remove_nul [c] = (if c = NUL then [] else [c]) \<and>
   (\<exists>l t. s = l @ trim s @ t \<and> list_all is_space l \<and> list_all is_space t) \<and>
   trimmed (trim s)"
  using sanitizeText_avoids(1,2,3) [of v] trimmed_sanitizeText [of v] sanitizeText_str [of s]
    tagged_iff [of s] strip_tags_untagged [of s] strip_tags_first_tag [of a x r]
    strip_tags_not_tagged [of s] escape_append [of a r] escape_single escape_other [of c]
    remove_nul_append [of a r] remove_nul_single [of c] trim_decomposition [of s]
    trimmed_trim [of s]
  by blast

theorem sanitizeText_output_witness:
  "sanitizeText (JStr (str '' a <i>b</i> & c < d'' @ [NUL] @ str '' '')) = str ''a b &amp; c &lt; d'' \<and>
   LT \<notin> set (sanitizeText (JStr (str '' a <i>b</i> & c < d'' @ [NUL] @ str '' ''))) \<and>
   \<not> tagged (str ''1 < 2'') \<and> strip_tags (str ''1 < 2'') = str ''1 < 2'' \<and>
   LT \<notin> set (str ''x '') \<and> GT \<notin> set (str ''b class=y'') \<and>
   strip_tags (str ''x '' @ LT # str ''b class=y'' @ GT # str ''z</b>'') =
     str ''x '' @ strip_tags (str ''z</b>'') \<and>
   strip_tags (str ''z</b>'') = str ''z'' \<and>
   (97 :: char16) \<notin> {AMP, LT, GT, QUOT, APOS, SLASH} \<and> escape [97] = [97]"
proof -
  have e: "sanitizeText (JStr (str '' a <i>b</i> & c < d'' @ [NUL] @ str '' '')) =
      str ''a b &amp; c &lt; d''" by code_simp
  have n: "\<not> tagged (str ''1 < 2'')" by code_simp
  have h: "LT \<notin> set (str ''x '') \<and> GT \<notin> set (str ''b class=y'')" by code_simp
  have z: "strip_tags (str ''z</b>'') = str ''z''" by code_simp
  have o: "(97 :: char16) \<notin> {AMP, LT, GT, QUOT, APOS, SLASH}" by simp
  from e n h z o
    sanitizeText_output [of "JStr (str '' a <i>b</i> & c < d'' @ [NUL] @ str '' '')" "str ''1 < 2''"
      "str ''x ''" "str ''b class=y''" "str ''z</b>''" 97]
  show ?thesis by blast
qed

text \<open>
  Claim C3 says that \<^verbatim>\<open>sanitizeText\<close> is idempotent. It is not: the second pass escapes the
  \<open>&\<close> of the entity that the first pass wrote for \<open>&\<close>.
\<close>

theorem sanitizeText_not_idempotent:
  "sanitizeText (JStr (sanitizeText (JStr (str ''&'')))) \<noteq> sanitizeText (JStr (str ''&''))"
  by code_simp

text \<open>
  Claim C3, amended. A second pass of \<^verbatim>\<open>sanitizeText\<close> returns the result of the first
  pass exactly when that result contains no \<open>&\<close>, that is, when the first pass escaped
  nothing; in general the second pass returns the result of the first with its special
  characters escaped once more.
\<close>

theorem sanitizeText_idempotent_iff:
  "sanitizeText (JStr (sanitizeText v)) = sanitizeText v \<longleftrightarrow> AMP \<notin> set (sanitizeText v)"
proof
  assume "sanitizeText (JStr (sanitizeText v)) = sanitizeText v"
  then have "length (escape (sanitizeText v)) = length (sanitizeText v)"
    by (simp add: sanitizeText_twice)
  then show "AMP \<notin> set (sanitizeText v)"
    using escape_amp_longer [of "sanitizeText v"] by auto
next
  assume "AMP \<notin> set (sanitizeText v)"
  then have "escape (sanitizeText v) = sanitizeText v"
    by (intro escape_id sanitizeText_avoids)
  then show "sanitizeText (JStr (sanitizeText v)) = sanitizeText v"
    by (simp add: sanitizeText_twice)
qed

theorem sanitizeText_idempotent_iff_witness:
  "AMP \<notin> set (sanitizeText (JStr (str '' <b>Hello</b> World ''))) \<and>
   sanitizeText (JStr (sanitizeText (JStr (str '' <b>Hello</b> World '')))) =
     sanitizeText (JStr (str '' <b>Hello</b> World '')) \<and>
   AMP \<in> set (sanitizeText (JStr (str ''R & D''))) \<and>
   sanitizeText (JStr (sanitizeText (JStr (str ''R & D'')))) \<noteq> sanitizeText (JStr (str ''R & D''))"
proof -
  have a: "AMP \<notin> set (sanitizeText (JStr (str '' <b>Hello</b> World '')))"
    by code_simp
  have b: "AMP \<in> set (sanitizeText (JStr (str ''R & D'')))"
    by code_simp
  from a b sanitizeText_idempotent_iff [of "JStr (str '' <b>Hello</b> World '')"]
    sanitizeText_idempotent_iff [of "JStr (str ''R & D'')"]
  show ?thesis by blast
qed

section \<open>Properties of the URL sanitizer\<close>

lemma nonempty_string_iff: "(truthy v \<and> typeof v = TString) = (\<exists>s. v = JStr s \<and> s \<noteq> [])"
  by (cases v) auto

text \<open>
  Claim C5. The result of \<^verbatim>\<open>sanitizeURL\<close> is the empty string, or it is the trimmed input,
  unchanged, and \<^verbatim>\<open>validator.isURL\<close> accepted the trimmed input under the options that
  allow the protocols http and https. When the trimmed, lower-cased input starts with
  \<^verbatim>\<open>javascript:\<close>, \<^verbatim>\<open>data:\<close>, \<^verbatim>\<open>vbscript:\<close> or \<^verbatim>\<open>file:\<close> the result is the empty string whatever
  \<^verbatim>\<open>isURL\<close> would answer: the deny-list is checked first.
\<close>

theorem sanitizeURL_result:
  "(sanitizeURL toLowerCase isURL v = [] \<or>
      (\<exists>s. v = JStr s \<and> sanitizeURL toLowerCase isURL v = trim s \<and> isURL (trim s) http_https)) \<and>
   (prefix (str ''javascript:'') (toLowerCase (trim s)) \<or>
    prefix (str ''data:'') (toLowerCase (trim s)) \<or>
    prefix (str ''vbscript:'') (toLowerCase (trim s)) \<or>
    prefix (str ''file:'') (toLowerCase (trim s))
      \<longrightarrow> sanitizeURL toLowerCase isURL (JStr s) = [])"
proof -
  have 1: "sanitizeURL toLowerCase isURL v = [] \<or>
      (\<exists>s. v = JStr s \<and> sanitizeURL toLowerCase isURL v = trim s \<and> isURL (trim s) http_https)"
    by (cases v) (auto simp: sanitizeURL_def http_https_def Let_def)
  have 2: "sanitizeURL toLowerCase isURL (JStr s) = []"
    if "prefix (str ''javascript:'') (toLowerCase (trim s)) \<or>
        prefix (str ''data:'') (toLowerCase (trim s)) \<or>
        prefix (str ''vbscript:'') (toLowerCase (trim s)) \<or>
        prefix (str ''file:'') (toLowerCase (trim s))"
    using that by (auto simp: sanitizeURL_def dangerousProtocols_def Let_def)
  from 1 2 show ?thesis by blast
qed

theorem sanitizeURL_result_witness:
  "prefix (str ''javascript:'') (ascii_lower (trim (str '' JavaScript:alert(1)''))) \<and>
   sanitizeURL ascii_lower (\<lambda>u opts. True) (JStr (str '' JavaScript:alert(1)'')) = [] \<and>
   sanitizeURL ascii_lower (\<lambda>u opts. True) (JStr (str '' https://example.com '')) =
     str ''https://example.com''"
proof -
  have a: "prefix (str ''javascript:'') (ascii_lower (trim (str '' JavaScript:alert(1)'')))"
    by code_simp
  have b: "sanitizeURL ascii_lower (\<lambda>u opts. True) (JStr (str '' https://example.com '')) =
     str ''https://example.com''"
    by code_simp
  from a b sanitizeURL_result [of ascii_lower "\<lambda>u opts. True" "JStr (str '' https://example.com '')" "str '' JavaScript:alert(1)''"]
  show ?thesis by blast
qed

section \<open>Properties of the schema validator\<close>

lemma passes_iff: "passes data name = (truthy (field data name) \<and> typeof (field data name) = TString)"
  by (cases "field data name") (auto simp: passes_def)

lemma validate_not_null:
  "data \<noteq> JNull \<Longrightarrow> data \<noteq> JUndefined \<Longrightarrow> validateCareerData data =
     Inr (if \<not> passes data ''jobTitle'' then invalid ''Job title is required and must be a string''
        else if \<not> passes data ''description'' then invalid ''Description is required and must be a string''
        else if \<not> passes data ''location'' then invalid ''Location is required and must be a string''
        else if \<not> passes data ''workSetup'' then invalid ''Work setup is required and must be a string''
        else if strlen (field data ''jobTitle'') > 200
          then invalid ''Job title must be less than 200 characters''
        else if strlen (field data ''description'') > 10000
          then invalid ''Description must be less than 10000 characters''
        else if truthy (field data ''questions'') \<and> \<not> isArray (field data ''questions'')
          then invalid ''Questions must be an array''
        else \<lparr>isValid = True, error = None\<rparr>)"
  by (simp add: validateCareerData_def passes_iff)

lemma find_required:
  "find (\<lambda>(name, msg). \<not> passes data name) required_fields =
     (if \<not> passes data ''jobTitle'' then Some (''jobTitle'', ''Job title is required and must be a string'')
      else if \<not> passes data ''description'' then Some (''description'', ''Description is required and must be a string'')
      else if \<not> passes data ''location'' then Some (''location'', ''Location is required and must be a string'')
      else if \<not> passes data ''workSetup'' then Some (''workSetup'', ''Work setup is required and must be a string'')
      else None)"
  unfolding required_fields_def by simp

lemma invalid_not_valid: "invalid msg \<noteq> \<lparr>isValid = True, error = None\<rparr>" "\<not> isValid (invalid msg)"
  by (simp_all add: invalid_def)

lemma first_failure: 
  assumes "data \<noteq> JNull" and "data \<noteq> JUndefined"
   and f: "find (\<lambda>(name, msg). \<not> passes data name) required_fields = Some (name, msg)"
  shows "validateCareerData data = Inr (invalid msg)"
proof -
  note v = validate_not_null [OF assms(1,2)]
  consider (a) "\<not> passes data ''jobTitle''"
    | (b) "passes data ''jobTitle''" "\<not> passes data ''description''"
    | (c) "passes data ''jobTitle''" "passes data ''description''" "\<not> passes data ''location''"
    | (d) "passes data ''jobTitle''" "passes data ''description''" "passes data ''location''"
          "\<not> passes data ''workSetup''"
    | (e) "passes data ''jobTitle''" "passes data ''description''" "passes data ''location''"
          "passes data ''workSetup''"
    by blast
  then show ?thesis
  proof cases
    case a
    with f have "Some (''jobTitle'', ''Job title is required and must be a string'') = Some (name, msg)"
      by (simp only: find_required if_True if_False not_True_eq_False not_False_eq_True)
    then have "msg = ''Job title is required and must be a string''" by blast
    with a show ?thesis by (simp only: v if_True if_False not_True_eq_False not_False_eq_True)
  next
    case b
    with f have "Some (''description'', ''Description is required and must be a string'') = Some (name, msg)"
      by (simp only: find_required if_True if_False not_True_eq_False not_False_eq_True)
    then have "msg = ''Description is required and must be a string''" by blast
    with b show ?thesis by (simp only: v if_True if_False not_True_eq_False not_False_eq_True)
  next
    case c
    with f have "Some (''location'', ''Location is required and must be a string'') = Some (name, msg)"
      by (simp only: find_required if_True if_False not_True_eq_False not_False_eq_True)
    then have "msg = ''Location is required and must be a string''" by blast
    with c show ?thesis by (simp only: v if_True if_False not_True_eq_False not_False_eq_True)
  next
    case d
    with f have "Some (''workSetup'', ''Work setup is required and must be a string'') = Some (name, msg)"
      by (simp only: find_required if_True if_False not_True_eq_False not_False_eq_True)
    then have "msg = ''Work setup is required and must be a string''" by blast
    with d show ?thesis by (simp only: v if_True if_False not_True_eq_False not_False_eq_True)
  next
    case e
    with f have "None = Some (name, msg)"
      by (simp only: find_required if_True if_False not_True_eq_False not_False_eq_True)
    then show ?thesis by blast
  qed
qed

lemma valid_no_error: 
  assumes "data \<noteq> JNull" and "data \<noteq> JUndefined"
  and  "validateCareerData data = Inr r" "isValid r"
  shows "error r = None" 
  using assms(3,4) unfolding validate_not_null [OF assms(1,2)]
  by (auto simp: invalid_not_valid split: if_splits)

lemma all_required: "list_all (passes data) (map fst required_fields) \<longleftrightarrow>
   passes data ''jobTitle'' \<and> passes data ''description'' \<and> passes data ''location'' \<and> passes data ''workSetup''"
  unfolding required_fields_def by simp

lemma valid_iff:
  assumes "data \<noteq> JNull" and "data \<noteq> JUndefined"
  shows "validateCareerData data = Inr \<lparr>isValid = True, error = None\<rparr> \<longleftrightarrow>
            list_all (passes data) (map fst required_fields) \<and>
            strlen (field data ''jobTitle'') \<le> 200 \<and> strlen (field data ''description'') \<le> 10000 \<and>
            (isArray (field data ''questions'') \<or> \<not> truthy (field data ''questions''))"
  unfolding validate_not_null [OF assms(1,2)] all_required
  by (auto simp: invalid_not_valid)

lemma invalid_result_message:
  assumes "data \<noteq> JNull" and "data \<noteq> JUndefined"
    and "validateCareerData data = Inr r" and "\<not> isValid r"
  shows "\<exists>e. error r = Some e"
  using assms(3,4) unfolding validate_not_null [OF assms(1,2)]
  by (auto simp: invalid_def split: if_splits)

text \<open>
  Claim C6. On a document (any value but \<^verbatim>\<open>null\<close> and \<^verbatim>\<open>undefined\<close>, on which the first
  property read throws) \<^verbatim>\<open>validateCareerData\<close> checks \<^verbatim>\<open>jobTitle\<close>, \<^verbatim>\<open>description\<close>, \<^verbatim>\<open>location\<close>
  and \<^verbatim>\<open>workSetup\<close> in this order and stops at the first that fails: the result has
  \<^verbatim>\<open>isValid\<close> false and its \<^verbatim>\<open>error\<close> is the message of that field. A document without
  \<^verbatim>\<open>jobTitle\<close> gets a result whose \<^verbatim>\<open>error\<close> contains "Job title". A valid result carries no
  message, an invalid one carries one, and the result is the valid one exactly when every
  check succeeds.
\<close>

theorem validateCareerData_required:
  assumes "data \<noteq> JNull" and "data \<noteq> JUndefined"
  shows "(find (\<lambda>(name, msg). \<not> passes data name) required_fields = Some (name, msg)
            \<longrightarrow> validateCareerData data = Inr \<lparr>isValid = False, error = Some (str msg)\<rparr>) \<and>
         (field data ''jobTitle'' = JUndefined
            \<longrightarrow> (\<exists>r e. validateCareerData data = Inr r \<and> \<not> isValid r \<and> error r = Some e \<and>
                   contains e ''Job title'')) \<and>
         (validateCareerData data = Inr r \<and> isValid r \<longrightarrow> error r = None) \<and>
         (validateCareerData data = Inr r \<and> \<not> isValid r \<longrightarrow> (\<exists>e. error r = Some e)) \<and>
         (validateCareerData data = Inr \<lparr>isValid = True, error = None\<rparr> \<longleftrightarrow>
            list_all (passes data) (map fst required_fields) \<and>
            strlen (field data ''jobTitle'') \<le> 200 \<and> strlen (field data ''description'') \<le> 10000 \<and>
            (isArray (field data ''questions'') \<or> \<not> truthy (field data ''questions'')))"
proof -
  note v = validate_not_null [OF assms]
  have 1: "validateCareerData data = Inr \<lparr>isValid = False, error = Some (str msg)\<rparr>"
    if "find (\<lambda>(name, msg). \<not> passes data name) required_fields = Some (name, msg)"
    using first_failure [OF assms that] by (simp only: invalid_def)
  have c: "contains (str ''Job title is required and must be a string'') ''Job title''"
    by code_simp
  have 2: "\<exists>r e. validateCareerData data = Inr r \<and> \<not> isValid r \<and> error r = Some e \<and>
                   contains e ''Job title''"
    if "field data ''jobTitle'' = JUndefined"
  proof -
    from that have "\<not> passes data ''jobTitle''" by (simp add: passes_def)
    then have "validateCareerData data = Inr (invalid ''Job title is required and must be a string'')"
      by (simp only: v if_True not_False_eq_True)
    then have "validateCareerData data =
        Inr \<lparr>isValid = False, error = Some (str ''Job title is required and must be a string'')\<rparr>"
      by (simp only: invalid_def)
    moreover have "\<not> isValid \<lparr>isValid = False,
        error = Some (str ''Job title is required and must be a string'')\<rparr>" by simp
    moreover have "error \<lparr>isValid = False,
        error = Some (str ''Job title is required and must be a string'')\<rparr> =
        Some (str ''Job title is required and must be a string'')" by simp
    ultimately show ?thesis using c by blast
  qed
  from 1 2 valid_no_error [OF assms] invalid_result_message [OF assms] valid_iff [OF assms]
  show ?thesis by blast
qed

theorem validateCareerData_required_witness:
  "field (JObj [(str ''description'', JStr (str ''x'')), (str ''location'', JStr (str ''x'')),
                (str ''workSetup'', JStr (str ''x''))]) ''jobTitle'' = JUndefined \<and>
   find (\<lambda>(name, msg). \<not> passes (JObj [(str ''description'', JStr (str ''x'')),
           (str ''location'', JStr (str ''x'')), (str ''workSetup'', JStr (str ''x''))]) name)
     required_fields = Some (''jobTitle'', ''Job title is required and must be a string'') \<and>
   validateCareerData
       (JObj [(str ''description'', JStr (str ''x'')), (str ''location'', JStr (str ''x'')),
              (str ''workSetup'', JStr (str ''x''))]) =
     Inr \<lparr>isValid = False, error = Some (str ''Job title is required and must be a string'')\<rparr> \<and>
   (\<exists>r e. validateCareerData
       (JObj [(str ''description'', JStr (str ''x'')), (str ''location'', JStr (str ''x'')),
              (str ''workSetup'', JStr (str ''x''))]) = Inr r \<and> \<not> isValid r \<and> error r = Some e \<and>
      contains e ''Job title'') \<and>
   validateCareerData
       (JObj [(str ''jobTitle'', JStr (str ''Software Engineer'')),
              (str ''description'', JStr (str ''Great opportunity'')),
              (str ''location'', JStr (str ''Remote'')), (str ''workSetup'', JStr (str ''Remote'')),
              (str ''questions'', JArr [])]) = Inr \<lparr>isValid = True, error = None\<rparr> \<and>
   isValid \<lparr>isValid = True, error = None\<rparr> \<and>
   error \<lparr>isValid = True, error = None\<rparr> = None"
proof -
  let ?d = "JObj [(str ''description'', JStr (str ''x'')), (str ''location'', JStr (str ''x'')),
                  (str ''workSetup'', JStr (str ''x''))]"
  let ?e = "JObj [(str ''jobTitle'', JStr (str ''Software Engineer'')),
              (str ''description'', JStr (str ''Great opportunity'')),
              (str ''location'', JStr (str ''Remote'')), (str ''workSetup'', JStr (str ''Remote'')),
              (str ''questions'', JArr [])]"
  have a: "field ?d ''jobTitle'' = JUndefined" by code_simp
  have f: "find (\<lambda>(name, msg). \<not> passes ?d name) required_fields =
      Some (''jobTitle'', ''Job title is required and must be a string'')" by code_simp
  have b: "?d \<noteq> JNull" "?d \<noteq> JUndefined" by simp_all
  have c: "?e \<noteq> JNull" "?e \<noteq> JUndefined" by simp_all
  have g: "list_all (passes ?e) (map fst required_fields) \<and>
            strlen (field ?e ''jobTitle'') \<le> 200 \<and> strlen (field ?e ''description'') \<le> 10000 \<and>
            (isArray (field ?e ''questions'') \<or> \<not> truthy (field ?e ''questions''))"
    by code_simp
  note t1 = validateCareerData_required
    [OF b, of "''jobTitle''" "''Job title is required and must be a string''"
       "\<lparr>isValid = True, error = None\<rparr>"]
  note t2 = validateCareerData_required
    [OF c, of "''jobTitle''" "''Job title is required and must be a string''"
       "\<lparr>isValid = True, error = None\<rparr>"]
  from f t1 have r1: "validateCareerData ?d =
      Inr \<lparr>isValid = False, error = Some (str ''Job title is required and must be a string'')\<rparr>"
    by blast
  from a t1 have r2: "\<exists>r e. validateCareerData ?d = Inr r \<and> \<not> isValid r \<and> error r = Some e \<and>
      contains e ''Job title''" by blast
  from g t2 have r3: "validateCareerData ?e = Inr \<lparr>isValid = True, error = None\<rparr>" by blast
  have r4: "isValid \<lparr>isValid = True, error = None\<rparr>" by simp
  from r3 r4 t2 have r5: "error \<lparr>isValid = True, error = None\<rparr> = None" by blast
  from a f r1 r2 r3 r4 r5 show ?thesis by blast
qed

lemma falsy_values:
  "\<not> truthy q \<longleftrightarrow> q \<in> {JUndefined, JNull, JBool False, JNum (Finite 0), JNum NaN, JStr []}"
  by (cases q) auto

text \<open>
  Claim C7 says that a \<^verbatim>\<open>questions\<close> field that is present but is not an array makes the
  result invalid. The guard is \<^verbatim>\<open>data.questions && !Array.isArray(data.questions)\<close>: a value
  that is present and falsy, such as the empty string, is accepted.
\<close>

theorem questions_falsy_accepted:
  "field (JObj [(str ''jobTitle'', JStr (str ''Software Engineer'')),
                (str ''description'', JStr (str ''Great opportunity'')),
                (str ''location'', JStr (str ''Remote'')), (str ''workSetup'', JStr (str ''Remote'')),
                (str ''questions'', JStr [])]) ''questions'' = JStr [] \<and>
   \<not> isArray (JStr []) \<and>
   validateCareerData
     (JObj [(str ''jobTitle'', JStr (str ''Software Engineer'')),
            (str ''description'', JStr (str ''Great opportunity'')),
            (str ''location'', JStr (str ''Remote'')), (str ''workSetup'', JStr (str ''Remote'')),
            (str ''questions'', JStr [])]) = Inr \<lparr>isValid = True, error = None\<rparr>"
  by code_simp

text \<open>
  Claim C7, amended. When the four required fields pass: a \<^verbatim>\<open>jobTitle\<close> of more than 200
  code units is rejected and the \<^verbatim>\<open>error\<close> of the result names 200 characters; otherwise a
  \<^verbatim>\<open>description\<close> of more than 10000 code units is rejected and the \<^verbatim>\<open>error\<close> names 10000
  characters; otherwise a \<^verbatim>\<open>questions\<close> value that is truthy and not an array is rejected
  and the \<^verbatim>\<open>error\<close> names "array"; otherwise the result is valid, which is the case for an
  array and for every falsy value: \<^verbatim>\<open>undefined\<close>, \<^verbatim>\<open>null\<close>, \<^verbatim>\<open>false\<close>, \<^verbatim>\<open>0\<close>, \<^verbatim>\<open>NaN\<close> and the
  empty string, and no other value is falsy.
\<close>

theorem validateCareerData_limits:
  assumes "data \<noteq> JNull" and "data \<noteq> JUndefined"
    and "list_all (passes data) (map fst required_fields)"
  shows "(200 < strlen (field data ''jobTitle'')
            \<longrightarrow> (\<exists>e. validateCareerData data = Inr \<lparr>isValid = False, error = Some e\<rparr> \<and>
                   e = str ''Job title must be less than 200 characters'' \<and>
                   contains e ''200 characters'')) \<and>
         (strlen (field data ''jobTitle'') \<le> 200 \<and> 10000 < strlen (field data ''description'')
            \<longrightarrow> (\<exists>e. validateCareerData data = Inr \<lparr>isValid = False, error = Some e\<rparr> \<and>
                   e = str ''Description must be less than 10000 characters'' \<and>
                   contains e ''10000 characters'')) \<and>
         (strlen (field data ''jobTitle'') \<le> 200 \<and> strlen (field data ''description'') \<le> 10000 \<and>
          truthy (field data ''questions'') \<and> \<not> isArray (field data ''questions'')
            \<longrightarrow> (\<exists>e. validateCareerData data = Inr \<lparr>isValid = False, error = Some e\<rparr> \<and>
                   e = str ''Questions must be an array'' \<and> contains e ''array'')) \<and>
         (strlen (field data ''jobTitle'') \<le> 200 \<and> strlen (field data ''description'') \<le> 10000 \<and>
          (isArray (field data ''questions'') \<or>
           field data ''questions'' \<in> {JUndefined, JNull, JBool False, JNum (Finite 0), JNum NaN, JStr []})
            \<longrightarrow> validateCareerData data = Inr \<lparr>isValid = True, error = None\<rparr>) \<and>
         (truthy (field data ''questions'') \<longleftrightarrow>
            field data ''questions'' \<notin> {JUndefined, JNull, JBool False, JNum (Finite 0), JNum NaN, JStr []})"
proof -
  from assms(3) have p: "passes data ''jobTitle''" "passes data ''description''"
    "passes data ''location''" "passes data ''workSetup''"
    by (simp_all only: all_required)
  have v: "validateCareerData data =
     Inr (if strlen (field data ''jobTitle'') > 200
          then invalid ''Job title must be less than 200 characters''
        else if strlen (field data ''description'') > 10000
          then invalid ''Description must be less than 10000 characters''
        else if truthy (field data ''questions'') \<and> \<not> isArray (field data ''questions'')
          then invalid ''Questions must be an array''
        else \<lparr>isValid = True, error = None\<rparr>)"
    using p by (simp only: validate_not_null [OF assms(1,2)] if_False not_True_eq_False)
  have c1: "contains (str ''Job title must be less than 200 characters'') ''200 characters''"
    by code_simp
  have c2: "contains (str ''Description must be less than 10000 characters'') ''10000 characters''"
    by code_simp
  have c3: "contains (str ''Questions must be an array'') ''array''"
    by code_simp
  have 1: "\<exists>e. validateCareerData data = Inr \<lparr>isValid = False, error = Some e\<rparr> \<and>
                   e = str ''Job title must be less than 200 characters'' \<and>
                   contains e ''200 characters''"
    if "200 < strlen (field data ''jobTitle'')"
  proof -
    from that have "validateCareerData data = Inr (invalid ''Job title must be less than 200 characters'')"
      by (simp only: v if_True)
    with c1 show ?thesis by (simp only: invalid_def) blast
  qed
  have 2: "\<exists>e. validateCareerData data = Inr \<lparr>isValid = False, error = Some e\<rparr> \<and>
                   e = str ''Description must be less than 10000 characters'' \<and>
                   contains e ''10000 characters''"
    if "strlen (field data ''jobTitle'') \<le> 200 \<and> 10000 < strlen (field data ''description'')"
  proof -
    from that have "validateCareerData data =
        Inr (invalid ''Description must be less than 10000 characters'')"
      by (simp add: v)
    with c2 show ?thesis by (simp only: invalid_def) blast
  qed
  have 3: "\<exists>e. validateCareerData data = Inr \<lparr>isValid = False, error = Some e\<rparr> \<and>
                   e = str ''Questions must be an array'' \<and> contains e ''array''"
    if "strlen (field data ''jobTitle'') \<le> 200 \<and> strlen (field data ''description'') \<le> 10000 \<and>
          truthy (field data ''questions'') \<and> \<not> isArray (field data ''questions'')"
  proof -
    from that have "validateCareerData data = Inr (invalid ''Questions must be an array'')"
      by (simp add: v)
    with c3 show ?thesis by (simp only: invalid_def) blast
  qed
  have 4: "validateCareerData data = Inr \<lparr>isValid = True, error = None\<rparr>"
    if "strlen (field data ''jobTitle'') \<le> 200 \<and> strlen (field data ''description'') \<le> 10000 \<and>
          (isArray (field data ''questions'') \<or>
           field data ''questions'' \<in> {JUndefined, JNull, JBool False, JNum (Finite 0), JNum NaN, JStr []})"
  proof -
    from that falsy_values [of "field data ''questions''"]
    have "isArray (field data ''questions'') \<or> \<not> truthy (field data ''questions'')"
      by blast
    with that show ?thesis by (auto simp: v)
  qed
  have 5: "truthy (field data ''questions'') \<longleftrightarrow>
            field data ''questions'' \<notin> {JUndefined, JNull, JBool False, JNum (Finite 0), JNum NaN, JStr []}"
    using falsy_values [of "field data ''questions''"] by blast
  from 1 2 3 4 5 show ?thesis by blast
qed

theorem validateCareerData_limits_witness:
  "list_all (passes (JObj [(str ''jobTitle'', JStr (replicate 201 65)),
                           (str ''description'', JStr (str ''x'')),
                           (str ''location'', JStr (str ''x'')),
                           (str ''workSetup'', JStr (str ''x''))])) (map fst required_fields) \<and>
   200 < strlen (field (JObj [(str ''jobTitle'', JStr (replicate 201 65)),
                           (str ''description'', JStr (str ''x'')),
                           (str ''location'', JStr (str ''x'')),
                           (str ''workSetup'', JStr (str ''x''))]) ''jobTitle'') \<and>
   validateCareerData (JObj [(str ''jobTitle'', JStr (replicate 201 65)),
                           (str ''description'', JStr (str ''x'')),
                           (str ''location'', JStr (str ''x'')),
                           (str ''workSetup'', JStr (str ''x''))]) =
     Inr \<lparr>isValid = False, error = Some (str ''Job title must be less than 200 characters'')\<rparr> \<and>
   contains (str ''Job title must be less than 200 characters'') ''200 characters'' \<and>
   10000 < strlen (field (JObj [(str ''jobTitle'', JStr (str ''x'')),
                           (str ''description'', JStr (replicate 10001 65)),
                           (str ''location'', JStr (str ''x'')),
                           (str ''workSetup'', JStr (str ''x''))]) ''description'') \<and>
   validateCareerData (JObj [(str ''jobTitle'', JStr (str ''x'')),
                           (str ''description'', JStr (replicate 10001 65)),
                           (str ''location'', JStr (str ''x'')),
                           (str ''workSetup'', JStr (str ''x''))]) =
     Inr \<lparr>isValid = False, error = Some (str ''Description must be less than 10000 characters'')\<rparr> \<and>
   truthy (JStr (str ''not an array'')) \<and> \<not> isArray (JStr (str ''not an array'')) \<and>
   validateCareerData (JObj [(str ''jobTitle'', JStr (str ''x'')),
                           (str ''description'', JStr (str ''x'')),
                           (str ''location'', JStr (str ''x'')),
                           (str ''workSetup'', JStr (str ''x'')),
                           (str ''questions'', JStr (str ''not an array''))]) =
     Inr \<lparr>isValid = False, error = Some (str ''Questions must be an array'')\<rparr> \<and>
   validateCareerData (JObj [(str ''jobTitle'', JStr (str ''x'')),
                           (str ''description'', JStr (str ''x'')),
                           (str ''location'', JStr (str ''x'')),
                           (str ''workSetup'', JStr (str ''x'')),
                           (str ''questions'', JNum (Finite 0))]) =
     Inr \<lparr>isValid = True, error = None\<rparr> \<and>
   validateCareerData (JObj [(str ''jobTitle'', JStr (str ''x'')),
                           (str ''description'', JStr (str ''x'')),
                           (str ''location'', JStr (str ''x'')),
                           (str ''workSetup'', JStr (str ''x'')),
                           (str ''questions'', JBool False)]) =
     Inr \<lparr>isValid = True, error = None\<rparr> \<and>
   validateCareerData (JObj [(str ''jobTitle'', JStr (str ''x'')),
                           (str ''description'', JStr (str ''x'')),
                           (str ''location'', JStr (str ''x'')),
                           (str ''workSetup'', JStr (str ''x'')),
                           (str ''questions'', JNull)]) =
     Inr \<lparr>isValid = True, error = None\<rparr>"
proof -
  let ?d = "JObj [(str ''jobTitle'', JStr (replicate 201 65)),
                           (str ''description'', JStr (str ''x'')),
                           (str ''location'', JStr (str ''x'')),
                           (str ''workSetup'', JStr (str ''x''))]"
  have a: "list_all (passes ?d) (map fst required_fields)" by code_simp
  have b: "200 < strlen (field ?d ''jobTitle'')" by code_simp
  have c: "?d \<noteq> JNull" "?d \<noteq> JUndefined" by simp_all
  from b validateCareerData_limits [OF c a]
  have r1: "validateCareerData ?d =
      Inr \<lparr>isValid = False, error = Some (str ''Job title must be less than 200 characters'')\<rparr> \<and>
      contains (str ''Job title must be less than 200 characters'') ''200 characters''"
    by blast
  define big :: jsstring where "big = replicate 10001 65"
  have len: "length big = 10001" by (simp add: big_def)
  then have ne: "big \<noteq> []" by auto
  let ?e = "JObj [(str ''jobTitle'', JStr (str ''x'')), (str ''description'', JStr big),
                  (str ''location'', JStr (str ''x'')), (str ''workSetup'', JStr (str ''x''))]"
  have k: "str ''jobTitle'' \<noteq> str ''description''" "str ''jobTitle'' \<noteq> str ''location''"
    "str ''jobTitle'' \<noteq> str ''workSetup''" "str ''description'' \<noteq> str ''location''"
    "str ''description'' \<noteq> str ''workSetup''" "str ''location'' \<noteq> str ''workSetup''"
    "str ''x'' \<noteq> []"
    by code_simp+
  have fe: "field ?e ''jobTitle'' = JStr (str ''x'')" "field ?e ''description'' = JStr big"
    "field ?e ''location'' = JStr (str ''x'')" "field ?e ''workSetup'' = JStr (str ''x'')"
    using k k [symmetric] by simp_all
  have a2: "list_all (passes ?e) (map fst required_fields)"
    unfolding all_required passes_def fe using ne k by simp
  have b2: "strlen (field ?e ''jobTitle'') \<le> 200 \<and> 10000 < strlen (field ?e ''description'')"
    unfolding fe using len by (simp add: str_def)
  have c2: "?e \<noteq> JNull" "?e \<noteq> JUndefined" by simp_all
  from b2 validateCareerData_limits [OF c2 a2]
  have "10000 < strlen (field ?e ''description'') \<and>
    validateCareerData ?e =
      Inr \<lparr>isValid = False, error = Some (str ''Description must be less than 10000 characters'')\<rparr>"
    by blast
  then have r2: "10000 < strlen (field (JObj [(str ''jobTitle'', JStr (str ''x'')),
                           (str ''description'', JStr (replicate 10001 65)),
                           (str ''location'', JStr (str ''x'')),
                           (str ''workSetup'', JStr (str ''x''))]) ''description'') \<and>
   validateCareerData (JObj [(str ''jobTitle'', JStr (str ''x'')),
                           (str ''description'', JStr (replicate 10001 65)),
                           (str ''location'', JStr (str ''x'')),
                           (str ''workSetup'', JStr (str ''x''))]) =
     Inr \<lparr>isValid = False, error = Some (str ''Description must be less than 10000 characters'')\<rparr>"
    unfolding big_def .
  have r3: "validateCareerData (JObj [(str ''jobTitle'', JStr (str ''x'')),
                           (str ''description'', JStr (str ''x'')),
                           (str ''location'', JStr (str ''x'')),
                           (str ''workSetup'', JStr (str ''x'')),
                           (str ''questions'', q)]) =
      (if truthy q \<and> \<not> isArray q
       then Inr \<lparr>isValid = False, error = Some (str ''Questions must be an array'')\<rparr>
       else Inr \<lparr>isValid = True, error = None\<rparr>)"
    if "q = JStr (str ''not an array'') \<or> q = JNum (Finite 0) \<or> q = JBool False \<or> q = JNull" for q
  proof -
    let ?q = "JObj [(str ''jobTitle'', JStr (str ''x'')),
                           (str ''description'', JStr (str ''x'')),
                           (str ''location'', JStr (str ''x'')),
                           (str ''workSetup'', JStr (str ''x'')),
                           (str ''questions'', q)]"
    have a3: "list_all (passes ?q) (map fst required_fields)" by code_simp
    have kq: "str ''questions'' \<noteq> str ''jobTitle''" "str ''questions'' \<noteq> str ''description''"
      "str ''questions'' \<noteq> str ''location''" "str ''questions'' \<noteq> str ''workSetup''"
      by code_simp+
    have fq: "field ?q ''questions'' = q" using kq by simp
    have b3: "strlen (field ?q ''jobTitle'') \<le> 200 \<and> strlen (field ?q ''description'') \<le> 10000"
      by code_simp
    have c3: "?q \<noteq> JNull" "?q \<noteq> JUndefined" by simp_all
    from that have "(truthy q \<and> \<not> isArray q) \<or>
        q \<in> {JUndefined, JNull, JBool False, JNum (Finite 0), JNum NaN, JStr []}"
      by auto
    with b3 validateCareerData_limits [OF c3 a3] fq show ?thesis
      by (cases "truthy q \<and> \<not> isArray q") auto
  qed
  have t: "truthy (JStr (str ''not an array'')) \<and> \<not> isArray (JStr (str ''not an array''))"
    by code_simp
  from r3 [of "JStr (str ''not an array'')"] t
  have q1: "validateCareerData (JObj [(str ''jobTitle'', JStr (str ''x'')),
                           (str ''description'', JStr (str ''x'')),
                           (str ''location'', JStr (str ''x'')),
                           (str ''workSetup'', JStr (str ''x'')),
                           (str ''questions'', JStr (str ''not an array''))]) =
     Inr \<lparr>isValid = False, error = Some (str ''Questions must be an array'')\<rparr>" by simp
  from r3 [of "JNum (Finite 0)"]
  have q2: "validateCareerData (JObj [(str ''jobTitle'', JStr (str ''x'')),
                           (str ''description'', JStr (str ''x'')),
                           (str ''location'', JStr (str ''x'')),
                           (str ''workSetup'', JStr (str ''x'')),
                           (str ''questions'', JNum (Finite 0))]) =
     Inr \<lparr>isValid = True, error = None\<rparr>" by simp
  from r3 [of "JBool False"]
  have q3: "validateCareerData (JObj [(str ''jobTitle'', JStr (str ''x'')),
                           (str ''description'', JStr (str ''x'')),
                           (str ''location'', JStr (str ''x'')),
                           (str ''workSetup'', JStr (str ''x'')),
                           (str ''questions'', JBool False)]) =
     Inr \<lparr>isValid = True, error = None\<rparr>" by simp
  from r3 [of JNull]
  have q4: "validateCareerData (JObj [(str ''jobTitle'', JStr (str ''x'')),
                           (str ''description'', JStr (str ''x'')),
                           (str ''location'', JStr (str ''x'')),
                           (str ''workSetup'', JStr (str ''x'')),
                           (str ''questions'', JNull)]) =
     Inr \<lparr>isValid = True, error = None\<rparr>" by simp
  from a b r1 r2 t q1 q2 q3 q4 show ?thesis by blast
qed

text \<open>
  Claim C10 says that a required field that is the empty string gets the message of that
  field. The checks stop at the first field that fails: when \<^verbatim>\<open>jobTitle\<close> is missing and
  \<^verbatim>\<open>description\<close> is the empty string, the message is the one of \<^verbatim>\<open>jobTitle\<close>.
\<close>

theorem empty_field_other_message:
  "field (JObj [(str ''description'', JStr []), (str ''location'', JStr (str ''Remote'')),
                (str ''workSetup'', JStr (str ''Remote''))]) ''description'' = JStr [] \<and>
   validateCareerData
     (JObj [(str ''description'', JStr []), (str ''location'', JStr (str ''Remote'')),
            (str ''workSetup'', JStr (str ''Remote''))]) =
     Inr \<lparr>isValid = False, error = Some (str ''Job title is required and must be a string'')\<rparr> \<and>
   str ''Job title is required and must be a string'' \<noteq>
     str ''Description is required and must be a string''"
  by code_simp

text \<open>
  Claim C10, amended. A document in which a required field is the empty string is
  rejected, although the field is present and a string: the \<^verbatim>\<open>error\<close> of the result is the
  "required" message of the first required field, in the order of the checks, that is not
  a non-empty string; it is the message of the empty field itself when every required
  field checked before it passes.
\<close>

theorem empty_required_field_rejected:
  assumes "data \<noteq> JNull" and "data \<noteq> JUndefined"
    and "(name, msg) \<in> set required_fields" and "field data name = JStr []"
  shows "(\<exists>before n m after. required_fields = before @ (n, m) # after \<and>
            list_all (passes data) (map fst before) \<and> \<not> passes data n \<and>
            validateCareerData data = Inr \<lparr>isValid = False, error = Some (str m)\<rparr>) \<and>
         (list_all (passes data) (takeWhile (\<lambda>n. n \<noteq> name) (map fst required_fields))
            \<longrightarrow> validateCareerData data = Inr \<lparr>isValid = False, error = Some (str msg)\<rparr>)"
proof -
  let ?P = "\<lambda>(name, msg). \<not> passes data name"
  note v = validate_not_null [OF assms(1,2)]
  from assms(4) have np: "\<not> passes data name" by (simp add: passes_def)
  from assms(3) have
      "(name, msg) = (''jobTitle'', ''Job title is required and must be a string'') \<or>
       (name, msg) = (''description'', ''Description is required and must be a string'') \<or>
       (name, msg) = (''location'', ''Location is required and must be a string'') \<or>
       (name, msg) = (''workSetup'', ''Work setup is required and must be a string'')"
    unfolding required_fields_def by (simp only: set_simps insert_iff empty_iff simp_thms)
  then consider
        (a) "name = ''jobTitle''" "msg = ''Job title is required and must be a string''"
      | (b) "name = ''description''" "msg = ''Description is required and must be a string''"
      | (c) "name = ''location''" "msg = ''Location is required and must be a string''"
      | (d) "name = ''workSetup''" "msg = ''Work setup is required and must be a string''"
    by (elim disjE Pair_inject) blast+
  note names = this
  from np names have some: "\<not> passes data ''jobTitle'' \<or> \<not> passes data ''description'' \<or>
      \<not> passes data ''location'' \<or> \<not> passes data ''workSetup''"
    by cases blast+
  then consider
      (A) "\<not> passes data ''jobTitle''"
    | (B) "passes data ''jobTitle''" "\<not> passes data ''description''"
    | (C) "passes data ''jobTitle''" "passes data ''description''" "\<not> passes data ''location''"
    | (D) "passes data ''jobTitle''" "passes data ''description''" "passes data ''location''"
          "\<not> passes data ''workSetup''"
    by blast
  then have 1: "\<exists>before n m after. required_fields = before @ (n, m) # after \<and>
            list_all (passes data) (map fst before) \<and> \<not> passes data n \<and>
            validateCareerData data = Inr \<lparr>isValid = False, error = Some (str m)\<rparr>"
  proof cases
    case A
    have "required_fields = [] @ (''jobTitle'', ''Job title is required and must be a string'') #
        [(''description'', ''Description is required and must be a string''),
         (''location'', ''Location is required and must be a string''),
         (''workSetup'', ''Work setup is required and must be a string'')]"
      by (simp only: required_fields_def append_Nil)
    moreover have "list_all (passes data) (map fst [])" by simp
    moreover from A have "validateCareerData data =
        Inr \<lparr>isValid = False, error = Some (str ''Job title is required and must be a string'')\<rparr>"
      by (simp only: v if_True not_False_eq_True invalid_def)
    ultimately show ?thesis using A by blast
  next
    case B
    have "required_fields = [(''jobTitle'', ''Job title is required and must be a string'')] @
        (''description'', ''Description is required and must be a string'') #
        [(''location'', ''Location is required and must be a string''),
         (''workSetup'', ''Work setup is required and must be a string'')]"
      by (simp only: required_fields_def append_Cons append_Nil)
    moreover from B have "list_all (passes data)
        (map fst [(''jobTitle'', ''Job title is required and must be a string'')])"
      by simp
    moreover from B have "validateCareerData data =
        Inr \<lparr>isValid = False, error = Some (str ''Description is required and must be a string'')\<rparr>"
      by (simp only: v if_True if_False not_False_eq_True not_True_eq_False invalid_def)
    ultimately show ?thesis using B by blast
  next
    case C
    have "required_fields = [(''jobTitle'', ''Job title is required and must be a string''),
          (''description'', ''Description is required and must be a string'')] @
        (''location'', ''Location is required and must be a string'') #
        [(''workSetup'', ''Work setup is required and must be a string'')]"
      by (simp only: required_fields_def append_Cons append_Nil)
    moreover from C have "list_all (passes data)
        (map fst [(''jobTitle'', ''Job title is required and must be a string''),
          (''description'', ''Description is required and must be a string'')])"
      by simp
    moreover from C have "validateCareerData data =
        Inr \<lparr>isValid = False, error = Some (str ''Location is required and must be a string'')\<rparr>"
      by (simp only: v if_True if_False not_False_eq_True not_True_eq_False invalid_def)
    ultimately show ?thesis using C by blast
  next
    case D
    have "required_fields = [(''jobTitle'', ''Job title is required and must be a string''),
          (''description'', ''Description is required and must be a string''),
          (''location'', ''Location is required and must be a string'')] @
        (''workSetup'', ''Work setup is required and must be a string'') # []"
      by (simp only: required_fields_def append_Cons append_Nil)
    moreover from D have "list_all (passes data)
        (map fst [(''jobTitle'', ''Job title is required and must be a string''),
          (''description'', ''Description is required and must be a string''),
          (''location'', ''Location is required and must be a string'')])"
      by simp
    moreover from D have "validateCareerData data =
        Inr \<lparr>isValid = False, error = Some (str ''Work setup is required and must be a string'')\<rparr>"
      by (simp only: v if_True if_False not_False_eq_True not_True_eq_False invalid_def)
    ultimately show ?thesis using D by blast
  qed
  have 2: "validateCareerData data = Inr \<lparr>isValid = False, error = Some (str msg)\<rparr>"
    if e: "list_all (passes data) (takeWhile (\<lambda>n. n \<noteq> name) (map fst required_fields))"
  proof -
    from names have "find ?P required_fields = Some (name, msg)"
    proof cases
      case a
      with np show ?thesis by (simp add: find_required)
    next
      case b
      with e have "passes data ''jobTitle''" by (simp add: required_fields_def)
      with b np show ?thesis by (simp add: find_required)
    next
      case c
      with e have "passes data ''jobTitle''" "passes data ''description''"
        by (simp_all add: required_fields_def)
      with c np show ?thesis by (simp add: find_required)
    next
      case d
      with e have "passes data ''jobTitle''" "passes data ''description''" "passes data ''location''"
        by (simp_all add: required_fields_def)
      with d np show ?thesis by (simp add: find_required)
    qed
    with first_failure [OF assms(1,2)] show ?thesis by (simp only: invalid_def)
  qed
  from 1 2 show ?thesis by blast
qed

theorem empty_required_field_rejected_witness:
  "(''location'', ''Location is required and must be a string'') \<in> set required_fields \<and>
   field (JObj [(str ''jobTitle'', JStr (str ''Engineer'')), (str ''description'', JStr (str ''x'')),
                (str ''location'', JStr []), (str ''workSetup'', JStr [])]) ''location'' = JStr [] \<and>
   list_all (passes (JObj [(str ''jobTitle'', JStr (str ''Engineer'')),
                           (str ''description'', JStr (str ''x'')),
                           (str ''location'', JStr []), (str ''workSetup'', JStr [])]))
     (takeWhile (\<lambda>n. n \<noteq> ''location'') (map fst required_fields)) \<and>
   validateCareerData
     (JObj [(str ''jobTitle'', JStr (str ''Engineer'')), (str ''description'', JStr (str ''x'')),
            (str ''location'', JStr []), (str ''workSetup'', JStr [])]) =
     Inr \<lparr>isValid = False, error = Some (str ''Location is required and must be a string'')\<rparr> \<and>
   (''workSetup'', ''Work setup is required and must be a string'') \<in> set required_fields \<and>
   field (JObj [(str ''jobTitle'', JStr (str ''Engineer'')), (str ''description'', JStr (str ''x'')),
                (str ''location'', JStr []), (str ''workSetup'', JStr [])]) ''workSetup'' = JStr [] \<and>
   (\<exists>before n m after. required_fields = before @ (n, m) # after \<and>
      list_all (passes (JObj [(str ''jobTitle'', JStr (str ''Engineer'')),
                           (str ''description'', JStr (str ''x'')),
                           (str ''location'', JStr []), (str ''workSetup'', JStr [])])) (map fst before) \<and>
      \<not> passes (JObj [(str ''jobTitle'', JStr (str ''Engineer'')),
                           (str ''description'', JStr (str ''x'')),
                           (str ''location'', JStr []), (str ''workSetup'', JStr [])]) n \<and>
      validateCareerData
       (JObj [(str ''jobTitle'', JStr (str ''Engineer'')), (str ''description'', JStr (str ''x'')),
            (str ''location'', JStr []), (str ''workSetup'', JStr [])]) =
       Inr \<lparr>isValid = False, error = Some (str m)\<rparr>)"
proof -
  let ?d = "JObj [(str ''jobTitle'', JStr (str ''Engineer'')), (str ''description'', JStr (str ''x'')),
                  (str ''location'', JStr []), (str ''workSetup'', JStr [])]"
  have a: "(''location'', ''Location is required and must be a string'') \<in> set required_fields"
    by code_simp
  have b: "field ?d ''location'' = JStr []" by code_simp
  have c: "list_all (passes ?d) (takeWhile (\<lambda>n. n \<noteq> ''location'') (map fst required_fields))"
    by code_simp
  have a': "(''workSetup'', ''Work setup is required and must be a string'') \<in> set required_fields"
    by code_simp
  have b': "field ?d ''workSetup'' = JStr []" by code_simp
  have d: "?d \<noteq> JNull" "?d \<noteq> JUndefined" by simp_all
  from a b c a' b' empty_required_field_rejected [OF d a b]
    empty_required_field_rejected [OF d a' b']
  show ?thesis by blast
qed

section \<open>Properties of the object sanitizer\<close>

lemma loop_body:
  "(\<lambda>(key, value) sanitized.
          if value = JNull \<or> value = JUndefined then set_prop sanitized key value
          else if typeof value = TString then
            (if key \<in> set htmlFields
             then set_prop sanitized key (JStr (sanitizeHTML purify value))
             else set_prop sanitized key (JStr (sanitizeText value)))
          else if typeof value = TObject
            then set_prop sanitized key (sanitizeObject purify value htmlFields)
          else set_prop sanitized key value)
   = (\<lambda>(key, value) sanitized. set_prop sanitized key (assigned purify htmlFields key value))"
  by (auto simp: fun_eq_iff assigned_def)

lemma sanitizeObject_JObj:
  "sanitizeObject purify (JObj entries) htmlFields =
     JObj (fold (\<lambda>(key, value) sanitized. set_prop sanitized key (assigned purify htmlFields key value))
             entries [])"
  by (simp only: sanitizeObject.simps loop_body)

declare sanitizeObject.simps(2) [simp del]

lemma assign_fresh: "k \<notin> fst ` set ps \<Longrightarrow> assign ps k v = ps @ [(k, v)]"
  by (induction ps) auto

lemma fold_set_prop:
  "distinct (map fst acc @ map fst kvs) \<Longrightarrow> str ''__proto__'' \<notin> set (map fst kvs) \<Longrightarrow>
   fold (\<lambda>(k, v) sanitized. set_prop sanitized k (g k v)) kvs acc =
     acc @ map (\<lambda>(k, v). (k, g k v)) kvs"
proof (induction kvs arbitrary: acc)
  case Nil
  then show ?case by simp
next
  case (Cons kv kvs)
  obtain k v where kv: "kv = (k, v)" by (cases kv)
  from Cons.prems kv have fresh: "k \<notin> fst ` set acc" and np: "k \<noteq> str ''__proto__''"
    by auto
  have step: "set_prop acc k (g k v) = acc @ [(k, g k v)]"
    using fresh np by (simp add: set_prop_def assign_fresh)
  from Cons.prems kv have "distinct (map fst (acc @ [(k, g k v)]) @ map fst kvs)"
    and "str ''__proto__'' \<notin> set (map fst kvs)"
    by auto
  then have "fold (\<lambda>(k, v) sanitized. set_prop sanitized k (g k v)) kvs (acc @ [(k, g k v)]) =
      (acc @ [(k, g k v)]) @ map (\<lambda>(k, v). (k, g k v)) kvs"
    by (rule Cons.IH)
  then show ?case by (simp add: kv step)
qed

lemma sanitizeObject_plain_JObj:
  assumes "distinct (map fst entries)" and "str ''__proto__'' \<notin> set (map fst entries)"
  shows "sanitizeObject purify (JObj entries) htmlFields =
     JObj (map (\<lambda>(k, v). (k, assigned purify htmlFields k v)) entries)"
  using fold_set_prop [of "[]" entries "assigned purify htmlFields"] assms
  by (simp add: sanitizeObject_JObj)

lemma at_path_scalar:
  "at_path v (st # p) = Some w \<Longrightarrow> (\<exists>xs. v = JArr xs) \<or> (\<exists>kvs. v = JObj kvs)"
  by (cases v; cases st) auto

lemma assigned_container:
  "(\<exists>xs. v = JArr xs) \<or> (\<exists>kvs. v = JObj kvs) \<Longrightarrow>
   assigned purify htmlFields k v = sanitizeObject purify v htmlFields"
  by (auto simp: assigned_def)

lemma map_of_assigned:
  "map_of (map (\<lambda>(k, v). (k, g k v)) kvs) k = map_option (g k) (map_of kvs k)"
  by (induction kvs) auto

lemma plain_entry: "plain (JObj kvs) \<Longrightarrow> map_of kvs k = Some w \<Longrightarrow> plain w"
  by (auto simp: list_all_iff dest!: map_of_SomeD)

lemma plain_item: "plain (JArr xs) \<Longrightarrow> i < length xs \<Longrightarrow> plain (xs ! i)"
  by (simp add: list_all_length)

lemma array_string_kept:
  "plain v \<Longrightarrow> at_path v (p @ [Index i]) = Some (JStr s) \<Longrightarrow>
   at_path (sanitizeObject purify v htmlFields) (p @ [Index i]) = Some (JStr s)"
proof (induction p arbitrary: v)
  case Nil
  from Nil.prems(2) obtain xs where v: "v = JArr xs"
    by (cases v) auto
  with Nil.prems(2) have "i < length xs" "xs ! i = JStr s"
    by (auto split: if_splits)
  with v show ?case by simp
next
  case (Cons st p)
  show ?case
  proof (cases st)
    case (Index j)
    with Cons.prems(2) obtain xs where v: "v = JArr xs"
      by (cases v) auto
    with Cons.prems(2) Index have j: "j < length xs"
      and sub: "at_path (xs ! j) (p @ [Index i]) = Some (JStr s)"
      by (auto split: if_splits)
    from Cons.prems(1) v j have "plain (xs ! j)" by (simp add: plain_item)
    from Cons.IH [OF this sub] v j Index show ?thesis by simp
  next
    case (Key k)
    with Cons.prems(2) obtain kvs where v: "v = JObj kvs"
      by (cases v) auto
    with Cons.prems(2) Key obtain w where w: "map_of kvs k = Some w"
      and sub: "at_path w (p @ [Index i]) = Some (JStr s)"
      by (auto split: option.splits)
    from Cons.prems(1) v w have pw: "plain w" by (simp only: plain_entry)
    from sub have "(\<exists>xs. w = JArr xs) \<or> (\<exists>kvs. w = JObj kvs)"
      by (cases "p @ [Index i]") (auto dest: at_path_scalar)
    then have a: "assigned purify htmlFields k w = sanitizeObject purify w htmlFields"
      by (rule assigned_container)
    from Cons.prems(1) v have "sanitizeObject purify v htmlFields =
        JObj (map (\<lambda>(k, v). (k, assigned purify htmlFields k v)) kvs)"
      by (simp add: sanitizeObject_plain_JObj)
    with Key w a Cons.IH [OF pw sub] show ?thesis
      by (simp add: map_of_assigned)
  qed
qed

lemma key_string_sanitized:
  "plain v \<Longrightarrow> at_path v (p @ [Key k]) = Some (JStr s) \<Longrightarrow>
   at_path (sanitizeObject purify v htmlFields) (p @ [Key k]) =
     Some (JStr (if k \<in> set htmlFields then sanitizeHTML purify (JStr s) else sanitizeText (JStr s)))"
proof (induction p arbitrary: v)
  case Nil
  from Nil.prems(2) obtain kvs where v: "v = JObj kvs"
    by (cases v) auto
  with Nil.prems(2) have w: "map_of kvs k = Some (JStr s)"
    by (auto split: option.splits)
  from Nil.prems(1) v have "sanitizeObject purify v htmlFields =
        JObj (map (\<lambda>(k, v). (k, assigned purify htmlFields k v)) kvs)"
    by (simp add: sanitizeObject_plain_JObj)
  with w show ?case by (simp add: map_of_assigned assigned_def)
next
  case (Cons st p)
  show ?case
  proof (cases st)
    case (Index j)
    with Cons.prems(2) obtain xs where v: "v = JArr xs"
      by (cases v) auto
    with Cons.prems(2) Index have j: "j < length xs"
      and sub: "at_path (xs ! j) (p @ [Key k]) = Some (JStr s)"
      by (auto split: if_splits)
    from Cons.prems(1) v j have "plain (xs ! j)" by (simp add: plain_item)
    from Cons.IH [OF this sub] v j Index show ?thesis by simp
  next
    case (Key k')
    with Cons.prems(2) obtain kvs where v: "v = JObj kvs"
      by (cases v) auto
    with Cons.prems(2) Key obtain w where w: "map_of kvs k' = Some w"
      and sub: "at_path w (p @ [Key k]) = Some (JStr s)"
      by (auto split: option.splits)
    from Cons.prems(1) v w have pw: "plain w" by (simp only: plain_entry)
    from sub have "(\<exists>xs. w = JArr xs) \<or> (\<exists>kvs. w = JObj kvs)"
      by (cases "p @ [Key k]") (auto dest: at_path_scalar)
    then have a: "assigned purify htmlFields k' w = sanitizeObject purify w htmlFields"
      by (rule assigned_container)
    from Cons.prems(1) v have "sanitizeObject purify v htmlFields =
        JObj (map (\<lambda>(k, v). (k, assigned purify htmlFields k v)) kvs)"
      by (simp add: sanitizeObject_plain_JObj)
    with Key w a Cons.IH [OF pw sub] show ?thesis
      by (simp add: map_of_assigned)
  qed
qed

text \<open>
  What does hold of claim C1: on a plain value the result has the shape of the input
  (\<open>sanitizeObject_shape\<close>: same keys in the same order, same array lengths, same scalars,
  only strings differ), and a string that is the value of a key is sanitized, in HTML
  mode when the key is in \<^verbatim>\<open>htmlFields\<close> and in plain-text mode otherwise
  (\<open>key_string_sanitized\<close>).
\<close>

lemma shape_assigned:
  assumes "v = JNull \<or> v = JUndefined \<or> typeof v \<noteq> TObject \<or>
           shape (sanitizeObject purify v htmlFields) = shape v"
  shows "shape (assigned purify htmlFields k v) = shape v"
  using assms by (cases v) (auto simp: assigned_def)

lemma sanitizeObject_shape:
  "plain v \<Longrightarrow> shape (sanitizeObject purify v htmlFields) = shape v"
proof (induction purify v htmlFields rule: sanitizeObject.induct)
  case (1 purify items htmlFields)
  then show ?case by (simp add: list_all_iff)
next
  case (2 purify entries htmlFields)
  from "2.prems" have d: "distinct (map fst entries)" "str ''__proto__'' \<notin> set (map fst entries)"
    by simp_all
  have "shape (assigned purify htmlFields k v) = shape v" if kv: "(k, v) \<in> set entries" for k v
  proof (rule shape_assigned)
    from "2.prems" kv have pv: "plain v" by (auto simp: list_all_iff)
    show "v = JNull \<or> v = JUndefined \<or> typeof v \<noteq> TObject \<or>
           shape (sanitizeObject purify v htmlFields) = shape v"
    proof (cases "v = JNull \<or> v = JUndefined \<or> typeof v \<noteq> TObject")
      case True
      then show ?thesis by blast
    next
      case False
      then have "\<not> (v = JNull \<or> v = JUndefined)" "typeof v \<noteq> TString" "typeof v = TObject"
        by auto
      from "2.IH" [OF kv refl this pv] show ?thesis by blast
    qed
  qed
  then have "map (\<lambda>(k, v). (k, shape (assigned purify htmlFields k v))) entries =
             map (\<lambda>(k, v). (k, shape v)) entries"
    by (intro map_cong) auto
  then show ?case
    by (simp add: sanitizeObject_plain_JObj [OF d] o_def case_prod_unfold)
qed simp_all

text \<open>
  An entry under the key \<^verbatim>\<open>__proto__\<close>, which \<^verbatim>\<open>JSON.parse\<close> creates as an own property, is
  not in the result.
\<close>

lemma proto_key_dropped:
  "sanitizeObject purify (JObj [(str ''__proto__'', JStr (str ''x''))]) [] = JObj []"
  by (simp add: sanitizeObject_JObj set_prop_def)

text \<open>
  Claim C1 says that every string leaf of the result of \<^verbatim>\<open>sanitizeObject\<close> is sanitized.
  On the input of the repository's own test "should handle arrays",
  \<^verbatim>\<open>{items: ['<script>XSS</script>', 'Safe text']}\<close> with no HTML fields, the result is the
  input: the string elements of the array are returned as they are, and the first still
  contains \<^verbatim>\<open><script>\<close>, which the test expects to be gone; in plain-text mode it would
  have become \<^verbatim>\<open>XSS\<close>.
\<close>

theorem array_strings_not_sanitized:
  "sanitizeObject purify
     (JObj [(str ''items'', JArr [JStr (str ''<script>XSS</script>''), JStr (str ''Safe text'')])]) [] =
     JObj [(str ''items'', JArr [JStr (str ''<script>XSS</script>''), JStr (str ''Safe text'')])] \<and>
   contains (str ''<script>XSS</script>'') ''<script>'' \<and>
   sanitizeText (JStr (str ''<script>XSS</script>'')) = str ''XSS''"
proof -
  have k: "str ''items'' \<noteq> str ''__proto__''" by code_simp
  have 1: "sanitizeObject purify
     (JObj [(str ''items'', JArr [JStr (str ''<script>XSS</script>''), JStr (str ''Safe text'')])]) [] =
     JObj [(str ''items'', JArr [JStr (str ''<script>XSS</script>''), JStr (str ''Safe text'')])]"
    using k by (simp add: sanitizeObject_JObj set_prop_def assigned_def)
  have 2: "contains (str ''<script>XSS</script>'') ''<script>''" by code_simp
  have 3: "sanitizeText (JStr (str ''<script>XSS</script>'')) = str ''XSS''" by code_simp
  from 1 2 3 show ?thesis by blast
qed

theorem array_strings_not_sanitized_witness:
  "sanitizeObject (\<lambda>html cfg. html)
     (JObj [(str ''items'', JArr [JStr (str ''<script>XSS</script>''), JStr (str ''Safe text'')])]) [] =
     JObj [(str ''items'', JArr [JStr (str ''<script>XSS</script>''), JStr (str ''Safe text'')])]"
  using array_strings_not_sanitized [of "\<lambda>html cfg. html"] by (rule conjunct1)

text \<open>
  Claim C2. \<^verbatim>\<open>sanitizeObject\<close> returns a string argument unchanged, and a string that is a
  direct element of an array is unchanged in the result: for the array given to
  \<^verbatim>\<open>sanitizeObject\<close> itself, and for an array at any position \<open>p\<close> inside a plain value. So
  only strings that are values of object keys reach \<^verbatim>\<open>sanitizeText\<close> or \<^verbatim>\<open>sanitizeHTML\<close>.
\<close>

theorem strings_outside_keys_unchanged:
  "sanitizeObject purify (JStr s) htmlFields = JStr s \<and>
   (i < length xs \<and> xs ! i = JStr s \<longrightarrow>
      (\<exists>ys. sanitizeObject purify (JArr xs) htmlFields = JArr ys \<and> length ys = length xs \<and>
            ys ! i = JStr s)) \<and>
   (plain v \<and> at_path v (p @ [Index i]) = Some (JStr s) \<longrightarrow>
      at_path (sanitizeObject purify v htmlFields) (p @ [Index i]) = Some (JStr s))"
  using array_string_kept [of v p i s purify htmlFields] by simp

theorem strings_outside_keys_unchanged_witness:
  "plain (JObj [(str ''questions'', JArr [JObj [(str ''options'', JArr [JStr (str ''<b>A</b>'')])]])]) \<and>
   at_path (JObj [(str ''questions'', JArr [JObj [(str ''options'', JArr [JStr (str ''<b>A</b>'')])]])])
     ([Key (str ''questions''), Index 0, Key (str ''options'')] @ [Index 0]) = Some (JStr (str ''<b>A</b>'')) \<and>
   at_path (sanitizeObject (\<lambda>html cfg. html)
       (JObj [(str ''questions'', JArr [JObj [(str ''options'', JArr [JStr (str ''<b>A</b>'')])]])])
       [str ''description''])
     ([Key (str ''questions''), Index 0, Key (str ''options'')] @ [Index 0]) = Some (JStr (str ''<b>A</b>'')) \<and>
   0 < length [JStr (str ''<b>A</b>'')] \<and> [JStr (str ''<b>A</b>'')] ! 0 = JStr (str ''<b>A</b>'') \<and>
   (\<exists>ys. sanitizeObject (\<lambda>html cfg. html) (JArr [JStr (str ''<b>A</b>'')]) [str ''description''] = JArr ys \<and>
      length ys = length [JStr (str ''<b>A</b>'')] \<and> ys ! 0 = JStr (str ''<b>A</b>'')) \<and>
   sanitizeObject (\<lambda>html cfg. html) (JStr (str ''<b>A</b>'')) [str ''description''] = JStr (str ''<b>A</b>'')"
proof -
  let ?v = "JObj [(str ''questions'', JArr [JObj [(str ''options'', JArr [JStr (str ''<b>A</b>'')])]])]"
  let ?p = "[Key (str ''questions''), Index 0, Key (str ''options'')]"
  have a: "plain ?v" by code_simp
  have b: "at_path ?v (?p @ [Index 0]) = Some (JStr (str ''<b>A</b>''))" by code_simp
  have c: "0 < length [JStr (str ''<b>A</b>'')] \<and> [JStr (str ''<b>A</b>'')] ! 0 = JStr (str ''<b>A</b>'')"
    by simp
  from a b c strings_outside_keys_unchanged
    [of "\<lambda>html cfg. html" "str ''<b>A</b>''" "[str ''description'']" 0 "[JStr (str ''<b>A</b>'')]" ?v ?p]
  show ?thesis by blast
qed

section \<open>Properties of the sanitizers under the errors of the runtime\<close>

text \<open>
  No string method and no function of \<^verbatim>\<open>validator\<close> or DOMPurify is ever called on a
  value that is not a string: the three string sanitizers return what the value functions
  compute. \<^verbatim>\<open>sanitizeObject\<close> returns what its value function computes when the stack has
  room for the depth of its argument, and throws otherwise.
\<close>

lemma sanitizeText_run_eq: "sanitizeText_run v = Inr (sanitizeText v)"
  by (cases v) (simp_all add: sanitizeText_run_def sanitizeText_def validator_escape_def)

lemma sanitizeHTML_run_eq: "sanitizeHTML_run purify v = Inr (sanitizeHTML purify v)"
  by (cases v) (simp_all add: sanitizeHTML_run_def sanitizeHTML_def DOMPurify_sanitize_def)

lemma sanitizeURL_run_eq:
  "sanitizeURL_run toLowerCase isURL v = Inr (sanitizeURL toLowerCase isURL v)"
  by (cases v) (simp_all add: sanitizeURL_run_def sanitizeURL_def validator_isURL_def Let_def)

lemma map_run_ok: "(\<And>x. x \<in> set xs \<Longrightarrow> f x = Inr (g x)) \<Longrightarrow> map_run f xs = Inr (map g xs)"
  by (induction xs) simp_all

lemma map_run_error:
  "(\<And>x. x \<in> set xs \<Longrightarrow> f x = Inr (g x) \<or> f x = Inl e) \<Longrightarrow> \<exists>x\<in>set xs. f x = Inl e \<Longrightarrow>
   map_run f xs = Inl e"
proof (induction xs)
  case Nil
  then show ?case by simp
next
  case (Cons x xs)
  show ?case
  proof (cases "f x = Inl e")
    case True
    then show ?thesis by simp
  next
    case False
    with Cons.prems(1) [of x] have fx: "f x = Inr (g x)" by simp
    from False Cons.prems(2) have "\<exists>x\<in>set xs. f x = Inl e" by auto
    with Cons.IH Cons.prems(1) have "map_run f xs = Inl e" by simp
    with fx show ?thesis by simp
  qed
qed

lemma fold_run_ok:
  "(\<And>x acc. x \<in> set xs \<Longrightarrow> f x acc = Inr (g x acc)) \<Longrightarrow> fold_run f xs acc = Inr (fold g xs acc)"
  by (induction xs arbitrary: acc) simp_all

lemma fold_run_error:
  "(\<And>x acc. x \<in> set xs \<Longrightarrow> f x acc = Inr (g x acc) \<or> (\<forall>acc. f x acc = Inl e)) \<Longrightarrow>
   \<exists>x\<in>set xs. \<forall>acc. f x acc = Inl e \<Longrightarrow> fold_run f xs acc = Inl e"
proof (induction xs arbitrary: acc)
  case Nil
  then show ?case by simp
next
  case (Cons x xs)
  show ?case
  proof (cases "\<forall>acc. f x acc = Inl e")
    case True
    then show ?thesis by simp
  next
    case False
    with Cons.prems(1) [of x] have fx: "f x acc = Inr (g x acc)" for acc
      by (metis list.set_intros(1))
    from False Cons.prems(2) have "\<exists>x\<in>set xs. \<forall>acc. f x acc = Inl e" by auto
    with Cons.IH Cons.prems(1) have "fold_run f xs (g x acc) = Inl e" by simp
    with fx show ?thesis by simp
  qed
qed

lemma foldr_max_le: "foldr max ns 0 \<le> (n::nat) \<longleftrightarrow> (\<forall>k\<in>set ns. k \<le> n)"
  by (induction ns) auto

lemma depth_pos: "0 < depth v"
  by (cases v) simp_all

lemma sanitizeObject_run_eq:
  "sanitizeObject_run purify n obj htmlFields =
     (if depth obj \<le> n then Inr (sanitizeObject purify obj htmlFields) else Inl RangeError)"
proof (induction n arbitrary: obj)
  case 0
  with depth_pos [of obj] show ?case by simp
next
  case (Suc n)
  show ?case
  proof (cases obj)
    case (JArr items)
    let ?f = "\<lambda>item. sanitizeObject_run purify n item htmlFields"
    have d: "depth obj \<le> Suc n \<longleftrightarrow> (\<forall>item\<in>set items. depth item \<le> n)"
      by (simp add: JArr foldr_max_le)
    show ?thesis
    proof (cases "\<forall>item\<in>set items. depth item \<le> n")
      case True
      then have "map_run ?f items = Inr (map (\<lambda>item. sanitizeObject purify item htmlFields) items)"
        by (intro map_run_ok) (simp add: Suc)
      with True d show ?thesis by (simp add: JArr)
    next
      case False
      have "map_run ?f items = Inl RangeError"
      proof (rule map_run_error [where g = "\<lambda>item. sanitizeObject purify item htmlFields"])
        show "?f x = Inr (sanitizeObject purify x htmlFields) \<or> ?f x = Inl RangeError" for x
          by (simp add: Suc)
        from False show "\<exists>x\<in>set items. ?f x = Inl RangeError"
          by (auto simp: Suc)
      qed
      with False d show ?thesis by (simp add: JArr)
    qed
  next
    case (JObj entries)
    let ?f = "\<lambda>(key, value) sanitized.
                if value = JNull \<or> value = JUndefined then Inr (set_prop sanitized key value)
                else if typeof value = TString then
                  (if key \<in> set htmlFields
                   then (case sanitizeHTML_run purify value of
                           Inl e \<Rightarrow> Inl e
                         | Inr s \<Rightarrow> Inr (set_prop sanitized key (JStr s)))
                   else (case sanitizeText_run value of
                           Inl e \<Rightarrow> Inl e
                         | Inr s \<Rightarrow> Inr (set_prop sanitized key (JStr s))))
                else if typeof value = TObject then
                  (case sanitizeObject_run purify n value htmlFields of
                     Inl e \<Rightarrow> Inl e
                   | Inr v \<Rightarrow> Inr (set_prop sanitized key v))
                else Inr (set_prop sanitized key value)"
    let ?g = "\<lambda>(key, value) sanitized. set_prop sanitized key (assigned purify htmlFields key value)"
    have step: "?f x acc = (if entry_depth x \<le> n then Inr (?g x acc) else Inl RangeError)" for x acc
      by (cases x) (auto simp: entry_depth_def assigned_def sanitizeHTML_run_eq sanitizeText_run_eq Suc)
    have d: "depth obj \<le> Suc n \<longleftrightarrow> (\<forall>x\<in>set entries. entry_depth x \<le> n)"
      by (simp add: JObj foldr_max_le entry_depth_def)
    have run: "sanitizeObject_run purify (Suc n) obj htmlFields =
        (case fold_run ?f entries [] of Inl e \<Rightarrow> Inl e | Inr sanitized \<Rightarrow> Inr (JObj sanitized))"
      by (simp add: JObj)
    show ?thesis
    proof (cases "\<forall>x\<in>set entries. entry_depth x \<le> n")
      case True
      then have "fold_run ?f entries [] = Inr (fold ?g entries [])"
        by (intro fold_run_ok) (simp add: step)
      with True d show ?thesis by (simp only: run JObj sanitizeObject_JObj) simp
    next
      case False
      have "fold_run ?f entries [] = Inl RangeError"
      proof (rule fold_run_error [where g = ?g])
        show "?f x acc = Inr (?g x acc) \<or> (\<forall>acc. ?f x acc = Inl RangeError)" for x acc
          by (simp only: step) simp
        from False show "\<exists>x\<in>set entries. \<forall>acc. ?f x acc = Inl RangeError"
          by (simp only: step) auto
      qed
      with False d show ?thesis by (simp only: run) simp
    qed
  qed simp_all
qed

lemma depth_nested: "depth (nested k) = Suc k"
  by (induction k) simp_all

lemma stack_overflow: "sanitizeObject_run purify n (nested n) htmlFields = Inl RangeError"
  by (simp add: sanitizeObject_run_eq depth_nested)

text \<open>
  Claim C9 says that every sanitizer returns a result on every input. \<^verbatim>\<open>sanitizeObject\<close>
  does not: its recursion has no bound, so on a stack with room for 10000 nested
  activations the empty array inside 10000 arrays makes it throw a \<^verbatim>\<open>RangeError\<close>, and
  by \<open>stack_overflow\<close> every size of stack has such an input.
\<close>

theorem sanitizeObject_stack_overflow:
  "sanitizeObject_run (\<lambda>html cfg. html) 10000 (nested 10000) [] = Inl RangeError"
  by (rule stack_overflow)

text \<open>
  Claim C9, amended. \<^verbatim>\<open>sanitizeHTML\<close>, \<^verbatim>\<open>sanitizeText\<close> and \<^verbatim>\<open>sanitizeURL\<close> return a result on
  every input without an error, and the empty string on every input that is not a
  non-empty string (\<^verbatim>\<open>null\<close>, \<^verbatim>\<open>undefined\<close>, a number, a boolean, an array, an object, the
  empty string). \<^verbatim>\<open>sanitizeObject\<close> returns a result without an error on every input
  whose depth the stack has room for, and throws a \<^verbatim>\<open>RangeError\<close> on every deeper input;
  an input that is not an array or a non-null object has depth 1 and is returned as it
  is, and the result is always of the kind of the input.
\<close>

theorem sanitizers_total:
  "sanitizeHTML_run purify v = Inr (sanitizeHTML purify v) \<and>
   sanitizeText_run v = Inr (sanitizeText v) \<and>
   sanitizeURL_run toLowerCase isURL v = Inr (sanitizeURL toLowerCase isURL v) \<and>
   (\<not> (\<exists>s. v = JStr s \<and> s \<noteq> []) \<longrightarrow>
      sanitizeHTML_run purify v = Inr [] \<and> sanitizeText_run v = Inr [] \<and>
      sanitizeURL_run toLowerCase isURL v = Inr []) \<and>
   (depth v \<le> n \<longrightarrow>
      sanitizeObject_run purify n v htmlFields = Inr (sanitizeObject purify v htmlFields)) \<and>
   (n < depth v \<longrightarrow> sanitizeObject_run purify n v htmlFields = Inl RangeError) \<and>
   (\<not> truthy v \<or> typeof v \<noteq> TObject \<longrightarrow>
      depth v = 1 \<and> sanitizeObject purify v htmlFields = v) \<and>
   typeof (sanitizeObject purify v htmlFields) = typeof v \<and>
   isArray (sanitizeObject purify v htmlFields) = isArray v \<and>
   depth (nested n) = Suc n"
proof -
  have 1: "sanitizeHTML_run purify v = Inr [] \<and> sanitizeText_run v = Inr [] \<and>
      sanitizeURL_run toLowerCase isURL v = Inr []"
    if "\<not> (\<exists>s. v = JStr s \<and> s \<noteq> [])"
    using that by (cases v) (auto simp: sanitizeHTML_run_def sanitizeText_run_def sanitizeURL_run_def)
  have 2: "depth v = 1 \<and> sanitizeObject purify v htmlFields = v"
    if "\<not> truthy v \<or> typeof v \<noteq> TObject"
    using that by (cases v) auto
  have 3: "typeof (sanitizeObject purify v htmlFields) = typeof v"
    by (cases v) (auto simp: sanitizeObject_JObj)
  have 4: "isArray (sanitizeObject purify v htmlFields) = isArray v"
    by (cases v) (auto simp: sanitizeObject_JObj)
  have 5: "sanitizeObject_run purify n v htmlFields = Inr (sanitizeObject purify v htmlFields)"
    if "depth v \<le> n"
    using that by (simp add: sanitizeObject_run_eq)
  have 6: "sanitizeObject_run purify n v htmlFields = Inl RangeError" if "n < depth v"
    using that by (simp add: sanitizeObject_run_eq)
  from 1 2 3 4 5 6 sanitizeHTML_run_eq [of purify v] sanitizeText_run_eq [of v]
    sanitizeURL_run_eq [of toLowerCase isURL v] depth_nested [of n]
  show ?thesis by blast
qed

theorem sanitizers_total_witness:
  "sanitizeHTML_run (\<lambda>html cfg. html) JNull = Inr [] \<and> sanitizeText_run JNull = Inr [] \<and>
   sanitizeURL_run ascii_lower (\<lambda>u opts. True) JNull = Inr [] \<and>
   sanitizeObject (\<lambda>html cfg. html) JNull [] = JNull \<and>
   sanitizeText_run (JStr (str ''<b>x</b> & y'')) = Inr (str ''x &amp; y'') \<and>
   sanitizeText_run (JNum (Finite 42)) = Inr [] \<and>
   depth (JObj [(str ''a'', JObj [(str ''b'', JArr [JStr (str ''<i>x</i>'')])])]) \<le> 4 \<and>
   sanitizeObject_run (\<lambda>html cfg. html) 4
       (JObj [(str ''a'', JObj [(str ''b'', JArr [JStr (str ''<i>x</i>'')])])]) [] =
     Inr (JObj [(str ''a'', JObj [(str ''b'', JArr [JStr (str ''<i>x</i>'')])])]) \<and>
   3 < depth (JObj [(str ''a'', JObj [(str ''b'', JArr [JStr (str ''<i>x</i>'')])])]) \<and>
   sanitizeObject_run (\<lambda>html cfg. html) 3
       (JObj [(str ''a'', JObj [(str ''b'', JArr [JStr (str ''<i>x</i>'')])])]) [] =
     Inl RangeError"
proof -
  let ?v = "JObj [(str ''a'', JObj [(str ''b'', JArr [JStr (str ''<i>x</i>'')])])]"
  let ?p = "\<lambda>html cfg. html :: jsstring"
  have a: "\<not> (\<exists>s. JNull = JStr s \<and> s \<noteq> [])" by simp
  have b: "\<not> truthy JNull \<or> typeof JNull \<noteq> TObject" by simp
  have c: "\<not> (\<exists>s. JNum (Finite 42) = JStr s \<and> s \<noteq> [])" by simp
  have d: "depth ?v \<le> 4" "3 < depth ?v" by code_simp+
  have e: "sanitizeText (JStr (str ''<b>x</b> & y'')) = str ''x &amp; y''" by code_simp
  have f: "sanitizeObject ?p ?v [] = ?v" by code_simp
  from a b sanitizers_total [of ?p JNull ascii_lower "\<lambda>u opts. True" 1 "[]"]
  have 1: "sanitizeHTML_run ?p JNull = Inr [] \<and> sanitizeText_run JNull = Inr [] \<and>
   sanitizeURL_run ascii_lower (\<lambda>u opts. True) JNull = Inr [] \<and>
   sanitizeObject ?p JNull [] = JNull" by blast
  from e sanitizers_total [of ?p "JStr (str ''<b>x</b> & y'')" ascii_lower "\<lambda>u opts. True" 1 "[]"]
  have 2: "sanitizeText_run (JStr (str ''<b>x</b> & y'')) = Inr (str ''x &amp; y'')" by simp
  from c sanitizers_total [of ?p "JNum (Finite 42)" ascii_lower "\<lambda>u opts. True" 1 "[]"]
  have 3: "sanitizeText_run (JNum (Finite 42)) = Inr []" by blast
  from d(1) f sanitizers_total [of ?p ?v ascii_lower "\<lambda>u opts. True" 4 "[]"]
  have 4: "sanitizeObject_run ?p 4 ?v [] = Inr ?v" by simp
  from d(2) sanitizers_total [of ?p ?v ascii_lower "\<lambda>u opts. True" 3 "[]"]
  have 5: "sanitizeObject_run ?p 3 ?v [] = Inl RangeError" by blast
  from 1 2 3 4 5 d show ?thesis by blast
qed

section \<open>Properties of the XSS detector\<close>

















section \<open>Cross-checks of the model\<close>

text \<open>
  The condition under which \<open>strip_tags\<close> removes a tag is the condition under which the
  pattern \<^verbatim>\<open><[^>]*>\<close> matches at that position, and the piece it removes, up to the first
  \<open>>\<close>, is a match of the pattern.
\<close>

lemma tag_match:
  "match_here [One (\<lambda>c. c = LT), Many (\<lambda>c. c \<noteq> GT), One (\<lambda>c. c = GT)] (c # cs) \<longleftrightarrow>
   c = LT \<and> GT \<in> set cs"
proof -
  have "match_here [Many (\<lambda>c. c \<noteq> GT), One (\<lambda>c. c = GT)] cs \<longleftrightarrow> GT \<in> set cs"
    by (induction cs) auto
  then show ?thesis by simp
qed

lemma tag_match_end:
  "GT \<in> set cs \<Longrightarrow>
   LT # cs = (LT # takeWhile (\<lambda>x. x \<noteq> GT) cs @ [GT]) @ tl (dropWhile (\<lambda>x. x \<noteq> GT) cs) \<and>
   denotes [One (\<lambda>c. c = LT), Many (\<lambda>c. c \<noteq> GT), One (\<lambda>c. c = GT)]
     (LT # takeWhile (\<lambda>x. x \<noteq> GT) cs @ [GT])"
proof -
  assume g: "GT \<in> set cs"
  then have ne: "dropWhile (\<lambda>x. x \<noteq> GT) cs \<noteq> []" by simp
  then have h: "hd (dropWhile (\<lambda>x. x \<noteq> GT) cs) = GT"
    using hd_dropWhile [of "\<lambda>x. x \<noteq> GT" cs] by simp
  from ne h have "dropWhile (\<lambda>x. x \<noteq> GT) cs = GT # tl (dropWhile (\<lambda>x. x \<noteq> GT) cs)"
    by (cases "dropWhile (\<lambda>x. x \<noteq> GT) cs") auto
  then have "cs = takeWhile (\<lambda>x. x \<noteq> GT) cs @ GT # tl (dropWhile (\<lambda>x. x \<noteq> GT) cs)"
    by (metis takeWhile_dropWhile_id)
  then have 1: "LT # cs = (LT # takeWhile (\<lambda>x. x \<noteq> GT) cs @ [GT]) @ tl (dropWhile (\<lambda>x. x \<noteq> GT) cs)"
    by simp
  have "list_all (\<lambda>c. c \<noteq> GT) (takeWhile (\<lambda>x. x \<noteq> GT) cs)"
    by (auto simp: list_all_iff dest: set_takeWhileD)
  then have 2: "denotes [One (\<lambda>c. c = LT), Many (\<lambda>c. c \<noteq> GT), One (\<lambda>c. c = GT)]
     (LT # takeWhile (\<lambda>x. x \<noteq> GT) cs @ [GT])"
    by auto
  from 1 2 show ?thesis by blast
qed

text \<open>
  Expectations of \<^verbatim>\<open>sanitize.test.ts\<close>, evaluated on the model.
\<close>

lemma test_suite_sanitizeText:
  "sanitizeText (JStr (str ''<p>Hello <strong>World</strong></p>'')) = str ''Hello World''"
  "sanitizeText (JStr (str ''Test & <script>'')) = str ''Test &amp;''"
  "sanitizeText (JStr (str ''  Hello World  '')) = str ''Hello World''"
  "sanitizeText (JStr (str ''Hello'' @ [NUL] @ str ''World'')) = str ''HelloWorld''"
  by code_simp+

lemma test_suite_sanitizeURL:
  "sanitizeURL ascii_lower (\<lambda>u opts. True) (JStr (str ''javascript:alert(\"XSS\")'')) = []"
  "sanitizeURL ascii_lower (\<lambda>u opts. True) (JStr (str ''data:text/html,<script>alert(\"XSS\")</script>'')) = []"
  "sanitizeURL ascii_lower (\<lambda>u opts. True) (JStr (str ''vbscript:msgbox(\"XSS\")'')) = []"
  by code_simp+

lemma test_suite_validateCareerData:
  "validateCareerData
     (JObj [(str ''jobTitle'', JStr (str ''Software Engineer'')),
            (str ''description'', JStr (str ''Great opportunity'')),
            (str ''location'', JStr (str ''Remote'')), (str ''workSetup'', JStr (str ''Remote'')),
            (str ''questions'', JArr [])]) = Inr \<lparr>isValid = True, error = None\<rparr>"
  "validateCareerData
     (JObj [(str ''jobTitle'', JStr (str ''Software Engineer'')),
            (str ''description'', JStr (str ''Great opportunity'')),
            (str ''location'', JStr (str ''Remote'')), (str ''workSetup'', JStr (str ''Remote'')),
            (str ''questions'', JStr (str ''not an array''))]) = Inr (invalid ''Questions must be an array'')"
  "validateCareerData JNull = Inl TypeError"
  by code_simp+

lemma test_suite_detectXSS:
  "detectXSS (JStr (str ''<script>alert(\"XSS\")</script>''))"
  "detectXSS (JStr (str ''javascript:alert(\"XSS\")''))"
  "detectXSS (JStr (str ''<iframe src=\"evil.com\"></iframe>''))"
  "\<not> detectXSS (JStr (str ''This is safe content''))"
  by code_simp+

lemma test_suite_sanitizeObject:
  "sanitizeObject purify (JObj [(str ''user'', JObj [(str ''name'', JStr (str ''<script>XSS</script>''))])]) [] =
     JObj [(str ''user'', JObj [(str ''name'', JStr (str ''XSS''))])]"
proof -
  have k: "str ''user'' \<noteq> str ''__proto__''" "str ''name'' \<noteq> str ''__proto__''" by code_simp+
  have t: "sanitizeText (JStr (str ''<script>XSS</script>'')) = str ''XSS''" by code_simp
  have n: "str ''<script>XSS</script>'' \<noteq> []" by code_simp
  show ?thesis using k
    by (simp add: sanitizeObject_JObj set_prop_def assigned_def t)
qed

end
